theory Spec2Isabelle
  imports Main "HOL-Library.Word"
begin

unbundle bit_operations_syntax

section \<open>Streams, errors and the platform\<close>

text \<open>
  The file \<^verbatim>\<open>src/stataread.c\<close> reads and writes Stata version 5 and 6 files through a
  C \<^verbatim>\<open>FILE *\<close>.  A stream is the list of bytes still to be read (for the reader) or the
  list of bytes written so far (for the writer).  Every call of R's \<^verbatim>\<open>error()\<close> is a value
  \<open>Inl (e, fp)\<close>: the error, and the stream as it stood when the error was raised.
\<close>

type_synonym byte = "8 word"
type_synonym stream = "byte list"

datatype error =
    ReadError            \<comment> \<open>"a binary read error occured"\<close>
  | WriteError           \<comment> \<open>"a binary write error occured"\<close>
  | EndianError          \<comment> \<open>"couldn't determine endianness."\<close>
  | NotStataFile         \<comment> \<open>"Not a Stata v5 or v6 file"\<close>
  | UnknownDataType      \<comment> \<open>"Unknown data type"\<close>
  | StrangeCharacteristic \<comment> \<open>"Type 0 characteristic of nonzero length"\<close>
  | CantHappen           \<comment> \<open>"This can't happen."\<close>
  | NegativeLength       \<comment> \<open>R's allocVector refuses a negative length\<close>
  | OutOfBounds          \<comment> \<open>a C string that runs out of its array\<close>

type_synonym 'a io = "stream \<Rightarrow> (error \<times> stream) + ('a \<times> stream)"

definition io_return :: "'a \<Rightarrow> 'a io" where
  "io_return x fp = Inr (x, fp)"

definition io_error :: "error \<Rightarrow> 'a io" where
  "io_error e fp = Inl (e, fp)"

definition io_bind :: "'a io \<Rightarrow> ('a \<Rightarrow> 'b io) \<Rightarrow> 'b io" where
  "io_bind m f fp = (case m fp of Inl e \<Rightarrow> Inl e | Inr (x, fp') \<Rightarrow> f x fp')"

text \<open>
  The code only runs where \<^verbatim>\<open>int\<close> and \<^verbatim>\<open>float\<close> have 4 bytes and \<^verbatim>\<open>double\<close> has 8
  (checked by \<^verbatim>\<open>do_readStata\<close> and \<^verbatim>\<open>do_writeStata\<close>).  What remains of the platform is
  the order of the bytes of a value in memory.
\<close>

datatype layout = BigEndian | LittleEndian

text \<open>Lines 33-48: the constants.\<close>

definition LOHI :: "32 word" where "LOHI = 1"
definition HILO :: "32 word" where "HILO = 2"

definition STATA_FLOAT :: byte where "STATA_FLOAT = 0x66"        \<comment> \<open>'f'\<close>
definition STATA_DOUBLE :: byte where "STATA_DOUBLE = 0x64"      \<comment> \<open>'d'\<close>
definition STATA_INT :: byte where "STATA_INT = 0x6C"            \<comment> \<open>'l'\<close>
definition STATA_SHORTINT :: byte where "STATA_SHORTINT = 0x69"  \<comment> \<open>'i'\<close>
definition STATA_BYTE :: byte where "STATA_BYTE = 0x62"          \<comment> \<open>'b'\<close>

definition STATA_STRINGOFFSET :: byte where "STATA_STRINGOFFSET = 0x7F"

definition STATA_BYTE_NA :: byte where "STATA_BYTE_NA = 127"
definition STATA_SHORTINT_NA :: "16 word" where "STATA_SHORTINT_NA = 32767"
definition STATA_INT_NA :: "32 word" where "STATA_INT_NA = 2147483647"

text \<open>
  Floats and doubles are their IEEE 754 bit patterns.  \<^verbatim>\<open>setup_consts\<close> sets
  \<^verbatim>\<open>STATA_FLOAT_NA = pow(2,127)\<close> and \<^verbatim>\<open>STATA_DOUBLE_NA = pow(2,1023)\<close>, both of type
  \<^verbatim>\<open>double\<close>: biased exponents \<open>127 + 1023 = 0x47E\<close> and \<open>1023 + 1023 = 0x7FE\<close>, mantissa 0.
\<close>

definition STATA_FLOAT_NA :: "64 word" where "STATA_FLOAT_NA = 0x47E0000000000000"
definition STATA_DOUBLE_NA :: "64 word" where "STATA_DOUBLE_NA = 0x7FE0000000000000"

text \<open>
  R's missing values (\<^verbatim>\<open>R.h\<close>, \<^verbatim>\<open>arithmetic.c\<close>): \<^verbatim>\<open>NA_INTEGER\<close> and \<^verbatim>\<open>NA_LOGICAL\<close> are
  \<^verbatim>\<open>INT_MIN\<close>; \<^verbatim>\<open>NA_REAL\<close> is the NaN whose high word is \<^verbatim>\<open>0x7ff00000\<close> and whose low word
  is 1954.
\<close>

definition NA_INTEGER :: "32 word" where "NA_INTEGER = 0x80000000"
definition NA_REAL :: "64 word" where "NA_REAL = 0x7FF00000000007A2"

section \<open>IEEE 754 on bit patterns\<close>

definition ISNAN :: "64 word \<Rightarrow> bool" where
  "ISNAN d = (drop_bit 52 d AND 0x7FF = 0x7FF \<and> d AND 0xFFFFFFFFFFFFF \<noteq> 0)"

text \<open>R's \<^verbatim>\<open>R_FINITE\<close>: neither a NaN nor an infinity, that is, the exponent is not all ones.\<close>

definition R_FINITE :: "64 word \<Rightarrow> bool" where
  "R_FINITE d = (drop_bit 52 d AND 0x7FF \<noteq> 0x7FF)"

text \<open>R's \<^verbatim>\<open>R_IsNA\<close>: a NaN whose low word is 1954.\<close>

definition R_IsNA :: "64 word \<Rightarrow> bool" where
  "R_IsNA d = (ISNAN d \<and> d AND 0xFFFFFFFF = 1954)"

text \<open>C's \<^verbatim>\<open>==\<close> on doubles: a NaN equals nothing, and the two zeros are equal.\<close>

definition double_eq :: "64 word \<Rightarrow> 64 word \<Rightarrow> bool" where
  "double_eq a b =
     (\<not> ISNAN a \<and> \<not> ISNAN b \<and>
      (a = b \<or> (a AND 0x7FFFFFFFFFFFFFFF = 0 \<and> b AND 0x7FFFFFFFFFFFFFFF = 0)))"

fun msb_index :: "nat \<Rightarrow> nat" where
  "msb_index m = (if m < 2 then 0 else Suc (msb_index (m div 2)))"

declare msb_index.simps [simp del]

text \<open>
  The conversion \<^verbatim>\<open>(double) f\<close> of a float: exact.  A float with biased exponent \<open>e\<close> and
  mantissa \<open>m\<close> is \<open>(2^23 + m) * 2^(e - 150)\<close>, or \<open>m * 2^(-149)\<close> when \<open>e = 0\<close>; the double
  has bias 1023 and 52 mantissa bits.  A NaN keeps its sign and payload and is made quiet,
  as the conversion instructions of the usual IEEE 754 processors do.
\<close>

definition double_of_float :: "32 word \<Rightarrow> 64 word" where
  "double_of_float f =
     (let s = (if bit f 31 then 0x8000000000000000 else 0) :: 64 word;
          e = unat (drop_bit 23 f AND 0xFF);
          m = unat (f AND 0x7FFFFF)
      in if e = 255 then
           (if m = 0 then s OR 0x7FF0000000000000
            else s OR 0x7FF8000000000000 OR push_bit 29 (of_nat m))
         else if e = 0 then
           (if m = 0 then s
            else let k = msb_index m
                 in s OR push_bit 52 (of_nat (k + 874)) OR push_bit (52 - k) (of_nat (m - 2 ^ k)))
         else s OR push_bit 52 (of_nat (e + 896)) OR push_bit 29 (of_nat m))"

text \<open>
  The conversion \<^verbatim>\<open>(float) d\<close> of a double: round to nearest, ties to even; a value too
  large becomes an infinity; a NaN keeps its sign and the top of its payload and is made
  quiet.
\<close>

definition float_of_double :: "64 word \<Rightarrow> 32 word" where
  "float_of_double d =
     (let s = (if bit d 63 then 0x80000000 else 0) :: 32 word;
          e = unat (drop_bit 52 d AND 0x7FF);
          m = unat (d AND 0xFFFFFFFFFFFFF)
      in if e = 2047 then
           (if m = 0 then s OR 0x7F800000 else s OR 0x7FC00000 OR of_nat (m div 2 ^ 29))
         else if e = 0 then s
         else
           let sig = 2 ^ 52 + m;
               sh = (if 896 < e then 29 else 926 - e);
               q = sig div 2 ^ sh;
               r = sig mod 2 ^ sh;
               half = 2 ^ (sh - 1);
               q' = (if half < r \<or> (r = half \<and> odd q) then q + 1 else q);
               mag = (if 896 < e then (e - 897) * 2 ^ 23 + q' else q')
           in if 0x7F800000 \<le> mag then s OR 0x7F800000 else s OR of_nat mag)"

section \<open>Values in memory\<close>

text \<open>
  The unions \<^verbatim>\<open>stata4\<close> and \<^verbatim>\<open>stata8\<close> (lines 58-67) and \<^verbatim>\<open>fread\<close>/\<^verbatim>\<open>fwrite\<close> of an
  \<^verbatim>\<open>int\<close>, \<^verbatim>\<open>float\<close> or \<^verbatim>\<open>double\<close> see a value as its bytes in memory, most significant
  byte first on a big-endian platform and last on a little-endian one.
\<close>

definition be_bytes4 :: "32 word \<Rightarrow> byte list" where
  "be_bytes4 w = [ucast (drop_bit 24 w), ucast (drop_bit 16 w), ucast (drop_bit 8 w), ucast w]"

definition be_word4 :: "byte list \<Rightarrow> 32 word" where
  "be_word4 bs =
     push_bit 24 (ucast (bs ! 0)) OR push_bit 16 (ucast (bs ! 1)) OR
     push_bit 8 (ucast (bs ! 2)) OR ucast (bs ! 3)"

definition be_bytes8 :: "64 word \<Rightarrow> byte list" where
  "be_bytes8 w =
     [ucast (drop_bit 56 w), ucast (drop_bit 48 w), ucast (drop_bit 40 w),
      ucast (drop_bit 32 w), ucast (drop_bit 24 w), ucast (drop_bit 16 w),
      ucast (drop_bit 8 w), ucast w]"

definition be_word8 :: "byte list \<Rightarrow> 64 word" where
  "be_word8 bs =
     push_bit 56 (ucast (bs ! 0)) OR push_bit 48 (ucast (bs ! 1)) OR
     push_bit 40 (ucast (bs ! 2)) OR push_bit 32 (ucast (bs ! 3)) OR
     push_bit 24 (ucast (bs ! 4)) OR push_bit 16 (ucast (bs ! 5)) OR
     push_bit 8 (ucast (bs ! 6)) OR ucast (bs ! 7)"

text \<open>The bytes of an \<^verbatim>\<open>int\<close> or \<^verbatim>\<open>float\<close> in memory, and the value that four bytes hold.\<close>

definition bytes_of4 :: "layout \<Rightarrow> 32 word \<Rightarrow> byte list" where
  "bytes_of4 l w = (case l of BigEndian \<Rightarrow> be_bytes4 w | LittleEndian \<Rightarrow> rev (be_bytes4 w))"

definition value_of4 :: "layout \<Rightarrow> byte list \<Rightarrow> 32 word" where
  "value_of4 l bs = (case l of BigEndian \<Rightarrow> be_word4 bs | LittleEndian \<Rightarrow> be_word4 (rev bs))"

text \<open>The same for a \<^verbatim>\<open>double\<close>.\<close>

definition bytes_of8 :: "layout \<Rightarrow> 64 word \<Rightarrow> byte list" where
  "bytes_of8 l w = (case l of BigEndian \<Rightarrow> be_bytes8 w | LittleEndian \<Rightarrow> rev (be_bytes8 w))"

definition value_of8 :: "layout \<Rightarrow> byte list \<Rightarrow> 64 word" where
  "value_of8 l bs = (case l of BigEndian \<Rightarrow> be_word8 bs | LittleEndian \<Rightarrow> be_word8 (rev bs))"

section \<open>Byte swapping (lines 69-103)\<close>

text \<open>
  \<^verbatim>\<open>swapd\<close>: \<^verbatim>\<open>input.value = d\<close>, then \<^verbatim>\<open>rval.bytes[7] = input.bytes[0]\<close>, ...,
  \<^verbatim>\<open>rval.bytes[3] = input.bytes[4]\<close>, and the result is \<^verbatim>\<open>rval.value\<close>.
\<close>

definition swapd :: "layout \<Rightarrow> 64 word \<Rightarrow> 64 word" where
  "swapd l d =
     (let input = bytes_of8 l d
      in value_of8 l [input ! 7, input ! 6, input ! 5, input ! 4,
                      input ! 3, input ! 2, input ! 1, input ! 0])"

definition swapi :: "layout \<Rightarrow> 32 word \<Rightarrow> 32 word" where
  "swapi l i =
     (let input = bytes_of4 l i
      in value_of4 l [input ! 3, input ! 2, input ! 1, input ! 0])"

text \<open>\<^verbatim>\<open>swapf\<close> takes a float and returns \<^verbatim>\<open>(double) rval.fvalue\<close>.\<close>

definition swapf :: "layout \<Rightarrow> 32 word \<Rightarrow> 64 word" where
  "swapf l f =
     (let input = bytes_of4 l f
      in double_of_float (value_of4 l [input ! 3, input ! 2, input ! 1, input ! 0]))"

section \<open>Byte order of the platform (lines 108-130)\<close>

text \<open>
  \<^verbatim>\<open>setup_consts\<close> stores the double 1 in the union \<^verbatim>\<open>ieee_double\<close> and looks at its two
  \<^verbatim>\<open>unsigned int\<close> words.  The result is the global \<^verbatim>\<open>endian\<close>.
\<close>

definition setup_consts :: "layout \<Rightarrow> 32 word io" where
  "setup_consts l =
     (let x = bytes_of8 l 0x3FF0000000000000;
          word0 = value_of4 l (take 4 x);
          word1 = value_of4 l (drop 4 x)
      in if word0 = 0x3ff00000 then io_return LOHI
         else if word1 = 0x3ff00000 then io_return HILO
         else io_error EndianError)"

section \<open>Low-level input (lines 135-199)\<close>

text \<open>
  \<^verbatim>\<open>fread(buffer, n, 1, fp) != 1\<close> raises the read error.  \<^verbatim>\<open>fread\<close> returns the number of
  whole items read, so it returns 0 when fewer than \<open>n\<close> bytes are left, and (ISO C,
  7.19.8.1) also when the item size \<open>n\<close> is 0.
\<close>

definition fread :: "nat \<Rightarrow> byte list io" where
  "fread n fp =
     (if n = 0 \<or> length fp < n then Inl (ReadError, drop n fp)
      else Inr (take n fp, drop n fp))"

definition InIntegerBinary :: "layout \<Rightarrow> bool \<Rightarrow> bool \<Rightarrow> 32 word io" where
  "InIntegerBinary l naok swapends =
     io_bind (fread 4) (\<lambda>bs.
       let i = value_of4 l bs;
           i = (if swapends then swapi l i else i)
       in io_return (if i = STATA_INT_NA \<and> \<not> naok then NA_INTEGER else i))"

definition InByteBinary :: "bool \<Rightarrow> 32 word io" where
  "InByteBinary naok fp =
     (case fp of
        [] \<Rightarrow> Inl (ReadError, [])
      | i # fp' \<Rightarrow> Inr (if i = STATA_BYTE_NA \<and> \<not> naok then NA_INTEGER else ucast i, fp'))"

text \<open>
  \<^verbatim>\<open>InShortIntBinary\<close> does not use its argument \<^verbatim>\<open>swapends\<close>: it puts the two bytes
  together in the order that the global \<^verbatim>\<open>stata_endian\<close> names.  \<^verbatim>\<open>first\<close>, \<^verbatim>\<open>second\<close> and
  \<^verbatim>\<open>result\<close> are \<^verbatim>\<open>unsigned short\<close>, so the value returned is never negative.
\<close>

definition InShortIntBinary :: "32 word \<Rightarrow> bool \<Rightarrow> bool \<Rightarrow> 32 word io" where
  "InShortIntBinary stata_endian naok swapends =
     io_bind (InByteBinary True) (\<lambda>b1.
     io_bind (InByteBinary True) (\<lambda>b2.
       let first = (ucast b1 :: 16 word);
           second = (ucast b2 :: 16 word);
           result = (if stata_endian = LOHI then push_bit 8 first OR second
                     else push_bit 8 second OR first)
       in io_return (if result = STATA_SHORTINT_NA \<and> \<not> naok then NA_INTEGER
                     else ucast result)))"

definition InDoubleBinary :: "layout \<Rightarrow> bool \<Rightarrow> bool \<Rightarrow> 64 word io" where
  "InDoubleBinary l naok swapends =
     io_bind (fread 8) (\<lambda>bs.
       let i = value_of8 l bs;
           i = (if swapends then swapd l i else i)
       in io_return (if double_eq i STATA_DOUBLE_NA \<and> \<not> naok then NA_REAL else i))"

text \<open>
  \<^verbatim>\<open>InFloatBinary\<close> holds the value in a \<^verbatim>\<open>float\<close>: the double that \<^verbatim>\<open>swapf\<close> returns is
  converted back, the comparison with \<^verbatim>\<open>STATA_FLOAT_NA\<close> is made on doubles, and the
  missing value returned is \<^verbatim>\<open>(float) NA_REAL\<close>.
\<close>

definition InFloatBinary :: "layout \<Rightarrow> bool \<Rightarrow> bool \<Rightarrow> 32 word io" where
  "InFloatBinary l naok swapends =
     io_bind (fread 4) (\<lambda>bs.
       let i = value_of4 l bs;
           i = (if swapends then float_of_double (swapf l i) else i)
       in io_return (if double_eq (double_of_float i) STATA_FLOAT_NA \<and> \<not> naok
                     then float_of_double NA_REAL else i))"

definition InStringBinary :: "nat \<Rightarrow> byte list io" where
  "InStringBinary nchar = fread nchar"

text \<open>
  \<^verbatim>\<open>nameMangle\<close>: the loop \<^verbatim>\<open>for(i=0;i<len;i++) if (stataname[i]=='_') stataname[i]='.';\<close>
  with \<^verbatim>\<open>'_'\<close> = 0x5F and \<^verbatim>\<open>'.'\<close> = 0x2E, from index \<open>i\<close> on.  The callers pass a \<open>len\<close>
  that is no more than the size of the array; the loop of the model stops at its end.
\<close>

function nameMangle_loop :: "byte list \<Rightarrow> nat \<Rightarrow> nat \<Rightarrow> byte list" where
  "nameMangle_loop stataname len i =
     (if i < len \<and> i < length stataname then
        nameMangle_loop
          (if stataname ! i = 0x5F then stataname[i := 0x2E] else stataname) len (Suc i)
      else stataname)"
  by pat_completeness auto
termination
  by (relation "measure (\<lambda>(stataname, len, i). len - i)") auto

declare nameMangle_loop.simps [simp del]

definition nameMangle :: "byte list \<Rightarrow> nat \<Rightarrow> byte list" where
  "nameMangle stataname len = nameMangle_loop stataname len 0"

section \<open>Low-level output (lines 446-499)\<close>

text \<open>
  The file written is a list that grows, so the device never fails.  \<^verbatim>\<open>fwrite\<close> still
  returns 0 for an item of size 0 (ISO C, 7.19.8.2), which the code takes for a write
  error.
\<close>

definition fwrite :: "byte list \<Rightarrow> unit io" where
  "fwrite bs fp = (if bs = [] then Inl (WriteError, fp) else Inr ((), fp @ bs))"

definition OutIntegerBinary :: "layout \<Rightarrow> 32 word \<Rightarrow> bool \<Rightarrow> unit io" where
  "OutIntegerBinary l i naok =
     (let i = (if i = NA_INTEGER \<and> \<not> naok then STATA_INT_NA else i)
      in fwrite (bytes_of4 l i))"

definition OutByteBinary :: "byte \<Rightarrow> unit io" where
  "OutByteBinary i = fwrite [i]"

text \<open>\<^verbatim>\<open>OutShortIntBinary\<close> keeps the low 8 bits of \<^verbatim>\<open>i>>8\<close> and of \<^verbatim>\<open>i & 0xff\<close>.\<close>

definition OutShortIntBinary :: "32 word \<Rightarrow> 32 word \<Rightarrow> unit io" where
  "OutShortIntBinary endian i =
     (let first = (if endian = LOHI then ucast (signed_drop_bit 8 i) else ucast (i AND 0xff)) :: byte;
          second = (if endian = LOHI then ucast (i AND 0xff) else ucast (signed_drop_bit 8 i)) :: byte
      in io_bind (fwrite [first]) (\<lambda>_. fwrite [second]))"

text \<open>\<^verbatim>\<open>OutDoubleBinary\<close> does not use its argument \<^verbatim>\<open>naok\<close>.\<close>

definition OutDoubleBinary :: "layout \<Rightarrow> 64 word \<Rightarrow> bool \<Rightarrow> unit io" where
  "OutDoubleBinary l d naok =
     (let d = (if R_FINITE d then d else STATA_DOUBLE_NA)
      in fwrite (bytes_of8 l d))"

definition OutStringBinary :: "byte list \<Rightarrow> nat \<Rightarrow> unit io" where
  "OutStringBinary buffer nchar = fwrite (take nchar buffer)"

text \<open>
  \<^verbatim>\<open>nameMangleOut\<close>: the same loop with \<^verbatim>\<open>if (stataname[i]=='.') stataname[i]='_';\<close>.
\<close>

function nameMangleOut_loop :: "byte list \<Rightarrow> nat \<Rightarrow> nat \<Rightarrow> byte list" where
  "nameMangleOut_loop stataname len i =
     (if i < len \<and> i < length stataname then
        nameMangleOut_loop
          (if stataname ! i = 0x2E then stataname[i := 0x5F] else stataname) len (Suc i)
      else stataname)"
  by pat_completeness auto
termination
  by (relation "measure (\<lambda>(stataname, len, i). len - i)") auto

declare nameMangleOut_loop.simps [simp del]

definition nameMangleOut :: "byte list \<Rightarrow> nat \<Rightarrow> byte list" where
  "nameMangleOut stataname len = nameMangleOut_loop stataname len 0"

section \<open>R vectors and the data frame\<close>

text \<open>
  The vectors of R that the code tells apart with \<^verbatim>\<open>TYPEOF\<close>.  A logical or integer
  vector holds \<^verbatim>\<open>int\<close>s, a real vector doubles, a character vector strings, each string
  being the \<^verbatim>\<open>LENGTH\<close> bytes that \<^verbatim>\<open>CHAR\<close> points to.  \<open>OTHERSXP n\<close> is a vector of
  any other type, of length \<open>n\<close>.
\<close>

datatype column =
    LGLSXP "32 word list"
  | INTSXP "32 word list"
  | REALSXP "64 word list"
  | STRSXP "byte list list"
  | OTHERSXP nat

fun length_col :: "column \<Rightarrow> nat" where
  "length_col (LGLSXP xs) = length xs"
| "length_col (INTSXP xs) = length xs"
| "length_col (REALSXP xs) = length xs"
| "length_col (STRSXP xs) = length xs"
| "length_col (OTHERSXP n) = n"

text \<open>The data frame: the list of its columns, and the attributes the code sets or reads.\<close>

record dataframe =
  df_columns :: "column list"
  df_names :: "byte list list"
  df_datalabel :: "byte list"
  df_time_stamp :: "byte list"
  df_formats :: "byte list list"
  df_var_labels :: "byte list list"
  df_row_names :: "byte list list"

text \<open>
  \<^verbatim>\<open>allocVector\<close> of R raises an error for a negative length.  A new numeric vector is
  not initialised; \<open>x\<close> stands for what it holds until the data loop has stored every cell.
\<close>

definition allocVector :: "32 word \<Rightarrow> 'a \<Rightarrow> 'a list io" where
  "allocVector n x =
     (if sint n < 0 then io_error NegativeLength else io_return (replicate (unat n) x))"

text \<open>
  \<^verbatim>\<open>mkChar(buf)\<close> copies the C string in \<open>buf\<close>, up to its first zero byte.  The argument
  is the part of the array that has been written; a string with no zero byte there runs
  past it.
\<close>

definition mkChar :: "byte list \<Rightarrow> byte list io" where
  "mkChar buf =
     (if 0 \<in> set buf then io_return (takeWhile (\<lambda>c. c \<noteq> 0) buf) else io_error OutOfBounds)"

text \<open>
  The macros \<^verbatim>\<open>INTEGER(x)[i]\<close>, \<^verbatim>\<open>LOGICAL(x)[i]\<close>, \<^verbatim>\<open>REAL(x)[i]\<close>, \<^verbatim>\<open>STRING_ELT(x,i)\<close> and
  \<^verbatim>\<open>VECTOR_ELT(x,i)\<close> make no bounds test.  With an index past the end of the vector they
  read what lies behind the vector in memory; the code raises nothing and goes on with the
  value it has found.  What lies there is no part of the data frame.  It is given to the
  writer as a value of its own: for each type of element, a function from the vector and
  the index to the value that is read there.
\<close>

record memory =
  past_column :: "column list \<Rightarrow> nat \<Rightarrow> column"
  past_string :: "byte list list \<Rightarrow> nat \<Rightarrow> byte list"
  past_int :: "32 word list \<Rightarrow> nat \<Rightarrow> 32 word"
  past_real :: "64 word list \<Rightarrow> nat \<Rightarrow> 64 word"

definition elt :: "('a list \<Rightarrow> nat \<Rightarrow> 'a) \<Rightarrow> 'a list \<Rightarrow> nat \<Rightarrow> 'a" where
  "elt past xs i = (if i < length xs then xs ! i else past xs i)"

text \<open>\<^verbatim>\<open>sprintf("%d", n)\<close> for \<open>n \<ge> 0\<close>: the decimal digits, as ASCII.\<close>

fun digits :: "nat \<Rightarrow> byte list" where
  "digits n = (if n < 10 then [of_nat (48 + n)] else digits (n div 10) @ [of_nat (48 + n mod 10)])"

declare digits.simps [simp del]

section \<open>Reading a file: \<^verbatim>\<open>R_LoadStataData\<close> (lines 212-422)\<close>

subsection \<open>The header (lines 220-269)\<close>

record header =
  h_endian :: "32 word"
  h_version5 :: bool
  h_stata_endian :: "32 word"
  h_swapends :: bool
  h_nvar :: "32 word"
  h_nobs :: "32 word"
  h_datalabel :: "byte list"
  h_timestamp :: "byte list"

definition read_header :: "layout \<Rightarrow> header io" where
  "read_header l =
     io_bind (setup_consts l) (\<lambda>endian.
     io_bind (InByteBinary True) (\<lambda>b.
     let abyte = (ucast b :: byte) in
     io_bind (if abyte = 0x69 then io_return True
              else if abyte = 0x6C then io_return False
              else io_error NotStataFile) (\<lambda>version5.
     io_bind (InByteBinary True) (\<lambda>stata_endian.
     let swapends = (endian \<noteq> stata_endian) in
     io_bind (InByteBinary True) (\<lambda>_.
     io_bind (InByteBinary True) (\<lambda>_.
     io_bind (InShortIntBinary stata_endian True swapends) (\<lambda>nvar.
     io_bind (InIntegerBinary l True swapends) (\<lambda>nobs.
     io_bind (InStringBinary (if version5 then 32 else 81)) (\<lambda>datalabel.
     io_bind (InStringBinary 18) (\<lambda>timestamp.
     io_return \<lparr>h_endian = endian, h_version5 = version5, h_stata_endian = stata_endian,
                h_swapends = swapends, h_nvar = nvar, h_nobs = nobs,
                h_datalabel = datalabel, h_timestamp = timestamp\<rparr>))))))))))"

subsection \<open>The variable descriptors (lines 272-359)\<close>

text \<open>
  Types (lines 277-299): one byte for each variable, and the column it asks for.  The byte
  is kept in \<^verbatim>\<open>INTEGER(types)[i]\<close>.
\<close>

definition alloc_column :: "byte \<Rightarrow> 32 word \<Rightarrow> column io" where
  "alloc_column abyte nobs =
     (if abyte = STATA_FLOAT \<or> abyte = STATA_DOUBLE then
        io_bind (allocVector nobs 0) (\<lambda>v. io_return (REALSXP v))
      else if abyte = STATA_INT \<or> abyte = STATA_SHORTINT \<or> abyte = STATA_BYTE then
        io_bind (allocVector nobs 0) (\<lambda>v. io_return (INTSXP v))
      else if abyte < STATA_STRINGOFFSET then io_error UnknownDataType
      else io_bind (allocVector nobs []) (\<lambda>v. io_return (STRSXP v)))"

primrec read_types :: "32 word \<Rightarrow> nat \<Rightarrow> (byte list \<times> column list) io" where
  "read_types nobs 0 = io_return ([], [])"
| "read_types nobs (Suc n) =
     io_bind (InByteBinary True) (\<lambda>b.
     let abyte = (ucast b :: byte) in
     io_bind (alloc_column abyte nobs) (\<lambda>col.
     io_bind (read_types nobs n) (\<lambda>(types, df).
     io_return (abyte # types, col # df))))"

text \<open>Names (lines 303-309): nine bytes each, mangled over all nine.\<close>

primrec read_names :: "nat \<Rightarrow> byte list list io" where
  "read_names 0 = io_return []"
| "read_names (Suc n) =
     io_bind (InStringBinary 9) (\<lambda>aname.
     io_bind (mkChar (nameMangle aname 9)) (\<lambda>name.
     io_bind (read_names n) (\<lambda>names.
     io_return (name # names))))"

text \<open>A loop that reads \<open>n\<close> bytes one at a time and drops them (lines 315-316, 365-366).\<close>

primrec skip_bytes :: "nat \<Rightarrow> unit io" where
  "skip_bytes 0 = io_return ()"
| "skip_bytes (Suc n) = io_bind (InByteBinary True) (\<lambda>_. skip_bytes n)"

text \<open>
  Formats (lines 323-329): twelve bytes each, read into the 18-byte array \<^verbatim>\<open>timestamp\<close>,
  whose last six bytes still hold the end of the time stamp.
\<close>

primrec read_formats :: "nat \<Rightarrow> byte list \<Rightarrow> byte list list io" where
  "read_formats 0 timestamp = io_return []"
| "read_formats (Suc n) timestamp =
     io_bind (InStringBinary 12) (\<lambda>bs.
     let timestamp = bs @ drop 12 timestamp in
     io_bind (mkChar timestamp) (\<lambda>format.
     io_bind (read_formats n timestamp) (\<lambda>formats.
     io_return (format # formats))))"

text \<open>Value labels (lines 335-337): nine bytes each, dropped.\<close>

primrec skip_value_labels :: "nat \<Rightarrow> unit io" where
  "skip_value_labels 0 = io_return ()"
| "skip_value_labels (Suc n) = io_bind (InStringBinary 9) (\<lambda>_. skip_value_labels n)"

text \<open>Variable labels (lines 342-357): 32 bytes each in version 5, 81 in version 6.\<close>

primrec read_var_labels :: "nat \<Rightarrow> nat \<Rightarrow> byte list list io" where
  "read_var_labels width 0 = io_return []"
| "read_var_labels width (Suc n) =
     io_bind (InStringBinary width) (\<lambda>datalabel.
     io_bind (mkChar datalabel) (\<lambda>label.
     io_bind (read_var_labels width n) (\<lambda>labels.
     io_return (label # labels))))"

record descriptors =
  d_types :: "byte list"
  d_columns :: "column list"
  d_names :: "byte list list"
  d_formats :: "byte list list"
  d_var_labels :: "byte list list"

definition read_descriptors :: "header \<Rightarrow> descriptors io" where
  "read_descriptors h =
     (let nvar = unat (h_nvar h) in
      io_bind (read_types (h_nobs h) nvar) (\<lambda>(types, df).
      io_bind (read_names nvar) (\<lambda>names.
      io_bind (skip_bytes (2 * (nvar + 1))) (\<lambda>_.
      io_bind (read_formats nvar (h_timestamp h)) (\<lambda>formats.
      io_bind (skip_value_labels nvar) (\<lambda>_.
      io_bind (read_var_labels (if h_version5 h then 32 else 81) nvar) (\<lambda>varlabels.
      io_return \<lparr>d_types = types, d_columns = df, d_names = names,
                 d_formats = formats, d_var_labels = varlabels\<rparr>)))))))"

subsection \<open>The characteristics (lines 363-370)\<close>

text \<open>One record after its nonzero type byte: a two-byte length and that many bytes.\<close>

definition skip_characteristic :: "32 word \<Rightarrow> bool \<Rightarrow> unit io" where
  "skip_characteristic stata_endian swapends =
     io_bind (InShortIntBinary stata_endian True swapends) (\<lambda>charlen. skip_bytes (unat charlen))"

lemma InByteBinary_shorter:
  "InByteBinary naok fp = Inr (x, fp') \<Longrightarrow> length fp' < length fp"
  by (cases fp) (auto simp add: InByteBinary_def)

lemma skip_bytes_le: "skip_bytes n fp = Inr (x, fp') \<Longrightarrow> length fp' \<le> length fp"
proof (induction n arbitrary: fp)
  case 0
  then show ?case by (simp add: io_return_def)
next
  case (Suc n)
  from Suc.prems obtain b fp1
    where 1: "InByteBinary True fp = Inr (b, fp1)" and 2: "skip_bytes n fp1 = Inr (x, fp')"
    by (auto simp add: io_bind_def split: sum.splits)
  from 1 have "length fp1 < length fp" by (rule InByteBinary_shorter)
  moreover from 2 have "length fp' \<le> length fp1" by (rule Suc.IH)
  ultimately show ?case by simp
qed

lemma skip_characteristic_le:
  "skip_characteristic se sw fp = Inr (x, fp') \<Longrightarrow> length fp' \<le> length fp"
  by (auto simp add: skip_characteristic_def InShortIntBinary_def io_bind_def io_return_def Let_def
      split: sum.splits dest!: InByteBinary_shorter skip_bytes_le)

text \<open>The loop \<^verbatim>\<open>while(InByteBinary(fp,1)) { ... }\<close>.\<close>

function skip_characteristics :: "32 word \<Rightarrow> bool \<Rightarrow> unit io" where
  "skip_characteristics stata_endian swapends fp =
     (case InByteBinary True fp of
        Inl e \<Rightarrow> Inl e
      | Inr (b, fp1) \<Rightarrow>
          if b = 0 then Inr ((), fp1)
          else (case skip_characteristic stata_endian swapends fp1 of
                  Inl e \<Rightarrow> Inl e
                | Inr (u, fp2) \<Rightarrow> skip_characteristics stata_endian swapends fp2))"
  by pat_completeness auto
termination
proof (relation "measure (\<lambda>(se, sw, fp). length fp)")
  show "wf (measure (\<lambda>(se, sw, fp). length fp))" by simp
next
  fix stata_endian :: "32 word" and swapends :: bool and fp :: stream
    and x :: "32 word \<times> stream" and b :: "32 word" and fp1 :: stream
    and y :: "unit \<times> stream" and u :: unit and fp2 :: stream
  assume "InByteBinary True fp = Inr x" "(b, fp1) = x"
    and "skip_characteristic stata_endian swapends fp1 = Inr y" "(u, fp2) = y"
  then have "length fp1 < length fp" and "length fp2 \<le> length fp1"
    by (auto dest: InByteBinary_shorter skip_characteristic_le)
  then show "((stata_endian, swapends, fp2), (stata_endian, swapends, fp)) \<in>
      measure (\<lambda>(se, sw, fp). length fp)"
    by simp
qed

declare skip_characteristics.simps [simp del]

definition read_characteristics :: "header \<Rightarrow> unit io" where
  "read_characteristics h =
     io_bind (skip_characteristics (h_stata_endian h) (h_swapends h)) (\<lambda>_.
     io_bind (InShortIntBinary (h_stata_endian h) True (h_swapends h)) (\<lambda>charlen.
     if charlen \<noteq> 0 then io_error StrangeCharacteristic else io_return ()))"

text \<open>
  The words of the claim about the characteristics.  A record is a type byte, two length
  bytes and a payload; the length that the two bytes announce is the one that
  \<^verbatim>\<open>InShortIntBinary\<close> reads from them.  A record is well formed when its type is not zero
  and its payload has the announced length.
\<close>

definition announced_length :: "32 word \<Rightarrow> byte \<Rightarrow> byte \<Rightarrow> nat" where
  "announced_length stata_endian a b =
     (case InShortIntBinary stata_endian True False [a, b] of
        Inl _ \<Rightarrow> 0
      | Inr (n, _) \<Rightarrow> unat n)"

definition well_formed_characteristic :: "32 word \<Rightarrow> byte \<times> byte \<times> byte \<times> byte list \<Rightarrow> bool" where
  "well_formed_characteristic stata_endian r =
     (case r of (t, a, b, payload) \<Rightarrow> t \<noteq> 0 \<and> length payload = announced_length stata_endian a b)"

definition characteristic_bytes :: "byte \<times> byte \<times> byte \<times> byte list \<Rightarrow> byte list" where
  "characteristic_bytes r = (case r of (t, a, b, payload) \<Rightarrow> t # a # b # payload)"

subsection \<open>The data (lines 376-405)\<close>

fun set_REAL :: "column \<Rightarrow> nat \<Rightarrow> 64 word \<Rightarrow> column" where
  "set_REAL (REALSXP xs) i v = REALSXP (xs[i := v])"
| "set_REAL col i v = col"

fun set_INTEGER :: "column \<Rightarrow> nat \<Rightarrow> 32 word \<Rightarrow> column" where
  "set_INTEGER (INTSXP xs) i v = INTSXP (xs[i := v])"
| "set_INTEGER col i v = col"

fun set_STRING_ELT :: "column \<Rightarrow> nat \<Rightarrow> byte list \<Rightarrow> column" where
  "set_STRING_ELT (STRSXP xs) i v = STRSXP (xs[i := v])"
| "set_STRING_ELT col i v = col"

text \<open>
  The body of the inner loop: the \<^verbatim>\<open>switch\<close> on \<^verbatim>\<open>INTEGER(types)[j]\<close>, which reads cell
  \<open>i\<close> of the column.  Every numeric read has \<^verbatim>\<open>naok = 0\<close>.  A string is read into a new
  \<^verbatim>\<open>allocString(charlen+1)\<close>, whose byte \<open>charlen\<close> is then set to zero.
\<close>

definition read_cell :: "layout \<Rightarrow> 32 word \<Rightarrow> bool \<Rightarrow> byte \<Rightarrow> nat \<Rightarrow> column \<Rightarrow> column io" where
  "read_cell l stata_endian swapends ty i col =
     (if ty = STATA_FLOAT then
        io_bind (InFloatBinary l False swapends) (\<lambda>v. io_return (set_REAL col i (double_of_float v)))
      else if ty = STATA_DOUBLE then
        io_bind (InDoubleBinary l False swapends) (\<lambda>v. io_return (set_REAL col i v))
      else if ty = STATA_INT then
        io_bind (InIntegerBinary l False swapends) (\<lambda>v. io_return (set_INTEGER col i v))
      else if ty = STATA_SHORTINT then
        io_bind (InShortIntBinary stata_endian False swapends) (\<lambda>v. io_return (set_INTEGER col i v))
      else if ty = STATA_BYTE then
        io_bind (InByteBinary False) (\<lambda>v. io_return (set_INTEGER col i v))
      else
        (let charlen = unat ty - unat STATA_STRINGOFFSET in
         io_bind (InStringBinary charlen) (\<lambda>bs. io_return (set_STRING_ELT col i (bs @ [0])))))"

text \<open>The inner loop over the variables \<open>j\<close>, each with its type and its column.\<close>

fun read_row :: "layout \<Rightarrow> 32 word \<Rightarrow> bool \<Rightarrow> nat \<Rightarrow> byte list \<Rightarrow> column list \<Rightarrow> column list io" where
  "read_row l stata_endian swapends i (ty # types) (col # df) =
     io_bind (read_cell l stata_endian swapends ty i col) (\<lambda>col'.
     io_bind (read_row l stata_endian swapends i types df) (\<lambda>df'.
     io_return (col' # df')))"
| "read_row l stata_endian swapends i types df = io_return df"

text \<open>The outer loop over the observations: \<open>n\<close> more rows, from row \<open>i\<close> on.\<close>

primrec read_rows :: "layout \<Rightarrow> 32 word \<Rightarrow> bool \<Rightarrow> byte list \<Rightarrow> nat \<Rightarrow> nat \<Rightarrow> column list \<Rightarrow> column list io" where
  "read_rows l stata_endian swapends types 0 i df = io_return df"
| "read_rows l stata_endian swapends types (Suc n) i df =
     io_bind (read_row l stata_endian swapends i types df) (\<lambda>df'.
     read_rows l stata_endian swapends types n (Suc i) df')"

subsection \<open>The whole function\<close>

text \<open>
  The loop \<^verbatim>\<open>for(i=0;i<nobs;i++)\<close> on a signed \<^verbatim>\<open>nobs\<close> runs \<open>nat (sint nobs)\<close> times.  The
  row names (lines 409-415) are the decimal numbers from 1 to \<^verbatim>\<open>nobs\<close>.
\<close>

definition R_LoadStataData :: "layout \<Rightarrow> dataframe io" where
  "R_LoadStataData l =
     io_bind (read_header l) (\<lambda>h.
     io_bind (mkChar (h_datalabel h)) (\<lambda>datalabel.
     io_bind (mkChar (h_timestamp h)) (\<lambda>timestamp.
     io_bind (read_descriptors h) (\<lambda>d.
     io_bind (read_characteristics h) (\<lambda>_.
     io_bind (read_rows l (h_stata_endian h) (h_swapends h) (d_types d)
                (nat (sint (h_nobs h))) 0 (d_columns d)) (\<lambda>df.
     io_bind (allocVector (h_nobs h) ([] :: byte list)) (\<lambda>_.
     io_return \<lparr>df_columns = df, df_names = d_names d, df_datalabel = datalabel,
                df_time_stamp = timestamp, df_formats = d_formats d,
                df_var_labels = d_var_labels d,
                df_row_names = map (\<lambda>i. digits (i + 1)) [0..<unat (h_nobs h)]\<rparr>)))))))"

section \<open>Writing a file: \<^verbatim>\<open>R_SaveStataData\<close> (lines 501-652)\<close>

text \<open>
  \<^verbatim>\<open>strncpy(dest, src, n)\<close> copies the C string \<open>src\<close>, cut after \<open>n\<close> bytes, and fills the
  rest of the \<open>n\<close> bytes with zeros.
\<close>

definition strncpy :: "byte list \<Rightarrow> nat \<Rightarrow> byte list" where
  "strncpy src n =
     (let s = take n (takeWhile (\<lambda>c. c \<noteq> 0) src) in s @ replicate (n - length s) 0)"

text \<open>The initial values of the arrays \<^verbatim>\<open>datalabel[81]\<close> and \<^verbatim>\<open>format9g[12]\<close> (lines 504-505).\<close>

definition written_by_R :: "byte list" where
  "written_by_R =
     [0x57, 0x72, 0x69, 0x74, 0x74, 0x65, 0x6e, 0x20, 0x62, 0x79, 0x20, 0x52, 0x2e] @
     replicate 14 0x20 @ replicate 54 0"

definition format9g :: "byte list" where
  "format9g = [0x25, 0x39, 0x2e, 0x30, 0x67] @ replicate 7 0"

subsection \<open>The header (lines 511-528)\<close>

text \<open>
  \<^verbatim>\<open>nobs = length(VECTOR_ELT(df,0))\<close>: the length of the first column, whatever the others
  are.
\<close>

definition write_header :: "layout \<Rightarrow> memory \<Rightarrow> dataframe \<Rightarrow> (32 word \<times> nat \<times> nat) io" where
  "write_header l mem df =
     io_bind (setup_consts l) (\<lambda>endian.
     io_bind (OutByteBinary 108) (\<lambda>_.
     io_bind (OutByteBinary (ucast endian)) (\<lambda>_.
     io_bind (OutByteBinary 1) (\<lambda>_.
     io_bind (OutByteBinary 0) (\<lambda>_.
     let nvar = length (df_columns df) in
     io_bind (OutShortIntBinary endian (of_nat nvar)) (\<lambda>_.
     let col0 = elt (past_column mem) (df_columns df) 0;
         nobs = length_col col0 in
     io_bind (OutIntegerBinary l (of_nat nobs) True) (\<lambda>_.
     io_bind (OutStringBinary written_by_R 81) (\<lambda>_.
     io_bind (OutStringBinary (replicate 18 0) 18) (\<lambda>_.
     io_return (endian, nvar, nobs))))))))))"

subsection \<open>The types (lines 537-562)\<close>

text \<open>
  The loop of lines 550-554 over the strings 0 to \<^verbatim>\<open>nobs\<close> - 1 of a column, from string \<open>j\<close>
  on, \<open>n\<close> strings to go: \<^verbatim>\<open>k\<close> is the length of the string just seen and \<^verbatim>\<open>charlen\<close> the
  longest so far.
\<close>

fun scan_lengths :: "memory \<Rightarrow> byte list list \<Rightarrow> nat \<Rightarrow> nat \<Rightarrow> nat \<Rightarrow> nat \<Rightarrow> (nat \<times> nat) io" where
  "scan_lengths mem cells 0 j k charlen = io_return (k, charlen)"
| "scan_lengths mem cells (Suc n) j k charlen =
     (let cell = elt (past_string mem) cells j;
          k = length cell;
          charlen = (if charlen < k then k else charlen)
      in scan_lengths mem cells n (Suc j) k charlen)"

text \<open>
  One pass of the loop over the columns.  For a character column the byte written is
  \<^verbatim>\<open>(unsigned char)(k+STATA_STRINGOFFSET)\<close> and \<^verbatim>\<open>INTEGER(types)[i]\<close> becomes \<^verbatim>\<open>k\<close>.  For the
  other columns \<^verbatim>\<open>INTEGER(types)[i]\<close> is never set, and never read: 0 stands for it.  The
  variable \<^verbatim>\<open>k\<close> lives on from one column to the next.
\<close>

definition write_type :: "memory \<Rightarrow> nat \<Rightarrow> column \<Rightarrow> nat \<Rightarrow> (nat \<times> nat) io" where
  "write_type mem nobs col k =
     (case col of
        LGLSXP _ \<Rightarrow> io_bind (OutByteBinary STATA_INT) (\<lambda>_. io_return (0, k))
      | INTSXP _ \<Rightarrow> io_bind (OutByteBinary STATA_INT) (\<lambda>_. io_return (0, k))
      | REALSXP _ \<Rightarrow> io_bind (OutByteBinary STATA_DOUBLE) (\<lambda>_. io_return (0, k))
      | STRSXP cells \<Rightarrow>
          io_bind (scan_lengths mem cells nobs 0 k 0) (\<lambda>(k, charlen).
          io_bind (OutByteBinary (of_nat (k + unat STATA_STRINGOFFSET))) (\<lambda>_.
          io_return (k, k)))
      | OTHERSXP _ \<Rightarrow> io_error UnknownDataType)"

fun write_types :: "memory \<Rightarrow> nat \<Rightarrow> column list \<Rightarrow> nat \<Rightarrow> nat list io" where
  "write_types mem nobs [] k = io_return []"
| "write_types mem nobs (col # cols) k =
     io_bind (write_type mem nobs col k) (\<lambda>(t, k).
     io_bind (write_types mem nobs cols k) (\<lambda>types.
     io_return (t # types)))"

subsection \<open>Names, sort list, formats, labels (lines 566-619)\<close>

text \<open>Names (lines 567-571), for the variables from \<open>i\<close> on: eight bytes and a zero.\<close>

fun write_names :: "memory \<Rightarrow> byte list list \<Rightarrow> nat \<Rightarrow> nat \<Rightarrow> unit io" where
  "write_names mem names 0 i = io_return ()"
| "write_names mem names (Suc n) i =
     (let name = elt (past_string mem) names i;
          aname = strncpy name 8 in
      io_bind (OutStringBinary (nameMangleOut aname 8) 8) (\<lambda>_.
      io_bind (OutByteBinary 0) (\<lambda>_.
      write_names mem names n (Suc i))))"

primrec write_zeros :: "nat \<Rightarrow> unit io" where
  "write_zeros 0 = io_return ()"
| "write_zeros (Suc n) = io_bind (OutByteBinary 0) (\<lambda>_. write_zeros n)"

text \<open>
  Formats (lines 582-591).  \<^verbatim>\<open>sprintf(strformat,"%%%ds",k)\<close> writes \<^verbatim>\<open>%\<close>, the digits of
  \<open>k\<close>, \<^verbatim>\<open>s\<close> and a zero into the 12-byte array \<^verbatim>\<open>strformat\<close>, and leaves the bytes behind
  them as they were.
\<close>

fun write_formats :: "(column \<times> nat) list \<Rightarrow> byte list \<Rightarrow> unit io" where
  "write_formats [] strformat = io_return ()"
| "write_formats ((STRSXP cells, k) # cts) strformat =
     (let s = [0x25] @ digits k @ [0x73, 0] in
      if 12 < length s then io_error OutOfBounds
      else let strformat = s @ drop (length s) strformat in
        io_bind (OutStringBinary strformat 12) (\<lambda>_. write_formats cts strformat))"
| "write_formats ((col, k) # cts) strformat =
     io_bind (OutStringBinary format9g 12) (\<lambda>_. write_formats cts strformat)"

primrec write_value_labels :: "nat \<Rightarrow> unit io" where
  "write_value_labels 0 = io_return ()"
| "write_value_labels (Suc n) =
     io_bind (OutStringBinary (replicate 9 0) 9) (\<lambda>_. write_value_labels n)"

text \<open>Variable labels (lines 606-610): the name, cut to 80 bytes, in 81 bytes.\<close>

fun write_var_labels :: "memory \<Rightarrow> byte list list \<Rightarrow> nat \<Rightarrow> nat \<Rightarrow> unit io" where
  "write_var_labels mem names 0 i = io_return ()"
| "write_var_labels mem names (Suc n) i =
     (let name = elt (past_string mem) names i;
          datalabel = (strncpy name 81)[80 := 0] in
      io_bind (OutStringBinary datalabel 81) (\<lambda>_.
      write_var_labels mem names n (Suc i)))"

subsection \<open>The data (lines 625-648)\<close>

text \<open>
  Cell \<open>i\<close> of a column: the \<^verbatim>\<open>switch\<close> on \<^verbatim>\<open>TYPEOF(VECTOR_ELT(df,j))\<close>.  A string is
  written whole, followed by \<^verbatim>\<open>INTEGER(types)[j] - k\<close> zero bytes when that is positive.
\<close>

definition write_cell :: "layout \<Rightarrow> memory \<Rightarrow> nat \<Rightarrow> column \<Rightarrow> nat \<Rightarrow> unit io" where
  "write_cell l mem i col t =
     (case col of
        LGLSXP xs \<Rightarrow> OutIntegerBinary l (elt (past_int mem) xs i) False
      | INTSXP xs \<Rightarrow> OutIntegerBinary l (elt (past_int mem) xs i) False
      | REALSXP xs \<Rightarrow> OutDoubleBinary l (elt (past_real mem) xs i) False
      | STRSXP cells \<Rightarrow>
          (let cell = elt (past_string mem) cells i;
               k = length cell in
           io_bind (OutStringBinary cell k) (\<lambda>_. write_zeros (t - k)))
      | OTHERSXP _ \<Rightarrow> io_error CantHappen)"

text \<open>The inner loop over the variables, each column with its entry of \<^verbatim>\<open>types\<close>.\<close>

fun write_row :: "layout \<Rightarrow> memory \<Rightarrow> nat \<Rightarrow> (column \<times> nat) list \<Rightarrow> unit io" where
  "write_row l mem i [] = io_return ()"
| "write_row l mem i ((col, t) # cts) =
     io_bind (write_cell l mem i col t) (\<lambda>_. write_row l mem i cts)"

text \<open>The outer loop over the observations: \<open>n\<close> more rows, from row \<open>i\<close> on.\<close>

primrec write_rows :: "layout \<Rightarrow> memory \<Rightarrow> (column \<times> nat) list \<Rightarrow> nat \<Rightarrow> nat \<Rightarrow> unit io" where
  "write_rows l mem cts 0 i = io_return ()"
| "write_rows l mem cts (Suc n) i =
     io_bind (write_row l mem i cts) (\<lambda>_. write_rows l mem cts n (Suc i))"

subsection \<open>The whole function\<close>

definition R_SaveStataData :: "layout \<Rightarrow> memory \<Rightarrow> dataframe \<Rightarrow> unit io" where
  "R_SaveStataData l mem df =
     io_bind (write_header l mem df) (\<lambda>(endian, nvar, nobs).
     io_bind (write_types mem nobs (df_columns df) 0) (\<lambda>types.
     io_bind (write_names mem (df_names df) nvar 0) (\<lambda>_.
     io_bind (write_zeros (2 * (nvar + 1))) (\<lambda>_.
     io_bind (write_formats (zip (df_columns df) types) (replicate 12 0)) (\<lambda>_.
     io_bind (write_value_labels nvar) (\<lambda>_.
     io_bind (write_var_labels mem (df_names df) nvar 0) (\<lambda>_.
     io_bind (OutByteBinary 0) (\<lambda>_.
     io_bind (OutByteBinary 0) (\<lambda>_.
     io_bind (OutByteBinary 0) (\<lambda>_.
     write_rows l mem (zip (df_columns df) types) nobs 0))))))))))"

subsection \<open>Notions for the claims about the writer\<close>

text \<open>A column cut to its first \<open>n\<close> cells.\<close>

fun take_col :: "nat \<Rightarrow> column \<Rightarrow> column" where
  "take_col n (LGLSXP xs) = LGLSXP (take n xs)"
| "take_col n (INTSXP xs) = INTSXP (take n xs)"
| "take_col n (REALSXP xs) = REALSXP (take n xs)"
| "take_col n (STRSXP xs) = STRSXP (take n xs)"
| "take_col n (OTHERSXP m) = OTHERSXP (min n m)"

text \<open>
  The bytes that the writer puts into a file when the first column has \<open>n\<close> cells, column
  by column.  The width of a string column is the value that the loop of lines 550-554
  leaves in \<^verbatim>\<open>k\<close> and line 556 stores in \<^verbatim>\<open>types\<close>: the length of string \<open>n - 1\<close> of the
  column, and the initial 0 of \<^verbatim>\<open>k\<close> when there is no string to look at.
\<close>

definition string_width :: "memory \<Rightarrow> nat \<Rightarrow> byte list list \<Rightarrow> nat" where
  "string_width mem n cells =
     (if n = 0 then 0 else length (elt (past_string mem) cells (n - 1)))"

fun width :: "memory \<Rightarrow> nat \<Rightarrow> column \<Rightarrow> nat" where
  "width mem n (STRSXP cells) = string_width mem n cells"
| "width mem n col = 0"

text \<open>The type byte of a column.\<close>

fun type_tag :: "memory \<Rightarrow> nat \<Rightarrow> column \<Rightarrow> byte" where
  "type_tag mem n (LGLSXP xs) = STATA_INT"
| "type_tag mem n (INTSXP xs) = STATA_INT"
| "type_tag mem n (REALSXP xs) = STATA_DOUBLE"
| "type_tag mem n (STRSXP cells) = of_nat (string_width mem n cells + unat STATA_STRINGOFFSET)"
| "type_tag mem n (OTHERSXP m) = 0"

text \<open>
  The bytes of cell \<open>i\<close> of a column in the data block; the cell is the one that \<^verbatim>\<open>elt\<close>
  finds at index \<open>i\<close>, inside the column or past its end.
\<close>

fun cell_bytes :: "layout \<Rightarrow> memory \<Rightarrow> nat \<Rightarrow> nat \<Rightarrow> column \<Rightarrow> byte list" where
  "cell_bytes l mem n i (LGLSXP xs) =
     (let v = elt (past_int mem) xs i in bytes_of4 l (if v = NA_INTEGER then STATA_INT_NA else v))"
| "cell_bytes l mem n i (INTSXP xs) =
     (let v = elt (past_int mem) xs i in bytes_of4 l (if v = NA_INTEGER then STATA_INT_NA else v))"
| "cell_bytes l mem n i (REALSXP xs) =
     (let d = elt (past_real mem) xs i in bytes_of8 l (if R_FINITE d then d else STATA_DOUBLE_NA))"
| "cell_bytes l mem n i (STRSXP cells) =
     (let cell = elt (past_string mem) cells i
      in cell @ replicate (string_width mem n cells - length cell) 0)"
| "cell_bytes l mem n i (OTHERSXP m) = []"

text \<open>
  The columns that \<^verbatim>\<open>R_SaveStataData\<close> writes without an error when the first column has
  \<open>n\<close> cells: logical, integer and real columns, and the string columns in which none of
  the strings 0 to \<open>n - 1\<close> is empty (\<^verbatim>\<open>fwrite\<close> of an item of size 0 writes nothing and
  returns 0) and the width has at most nine digits (so that \<^verbatim>\<open>sprintf\<close> stays inside the 12
  bytes of \<^verbatim>\<open>strformat\<close>).  The strings are those that \<^verbatim>\<open>elt\<close> finds, inside the column
  or past its end: no length is compared with another.
\<close>

fun writable :: "memory \<Rightarrow> nat \<Rightarrow> column \<Rightarrow> bool" where
  "writable mem n (STRSXP cells) =
     (list_all (\<lambda>i. elt (past_string mem) cells i \<noteq> []) [0..<n] \<and>
      string_width mem n cells < 1000000000)"
| "writable mem n (OTHERSXP m) = False"
| "writable mem n col = True"

text \<open>
  A memory for the examples: past the end of a vector of columns lies a value that is no
  vector, past the end of a vector of strings the string \<^verbatim>\<open>?\<close>, past the end of a vector of
  ints the int 42 and past the end of a vector of doubles the double 42.
\<close>

definition example_memory :: memory where
  "example_memory =
     \<lparr>past_column = (\<lambda>cols i. OTHERSXP 0), past_string = (\<lambda>cells i. [0x3F]),
      past_int = (\<lambda>xs i. 42), past_real = (\<lambda>xs i. 0x4045000000000000)\<rparr>"

text \<open>
  The file as it stands when a step of the writer has returned, or has stopped with an
  error.
\<close>

definition written :: "(error \<times> stream) + ('a \<times> stream) \<Rightarrow> stream" where
  "written r = (case r of Inl (e, fp) \<Rightarrow> fp | Inr (x, fp) \<Rightarrow> fp)"

text \<open>A writer only appends to the file, whether it returns or stops with an error.\<close>

definition appends :: "'a io \<Rightarrow> bool" where
  "appends m = (\<forall>out. \<exists>s. written (m out) = out @ s)"

section \<open>Bytes and values\<close>

lemma be_word4_bytes4: "be_word4 (be_bytes4 w) = w"
  unfolding be_word4_def be_bytes4_def
  apply (rule bit_word_eqI)
  apply (simp add: bit_simps cong: conj_cong)
  apply arith
  done

lemma be_bytes4_word4: "be_bytes4 (be_word4 [a, b, c, d]) = [a, b, c, d]"
  unfolding be_word4_def be_bytes4_def
  apply simp
  apply (intro conjI; rule bit_word_eqI)
     apply (simp_all add: bit_simps cong: conj_cong)
  apply (auto dest: bit_imp_le_length)
  done

lemma bit_slice8:
  "k \<le> 56 \<Longrightarrow>
   bit (push_bit k (ucast (ucast (drop_bit k w) :: byte)) :: 64 word) n =
     (k \<le> n \<and> n < k + 8 \<and> bit w n)"
  apply (simp add: bit_simps cong: conj_cong)
  apply (auto dest: bit_imp_le_length)
  done

lemma bit_slice8_low: "bit (ucast (ucast w :: byte) :: 64 word) n = (n < 8 \<and> bit w n)"
  by (auto simp add: bit_simps)

lemma be_word8_bytes8: "be_word8 (be_bytes8 w) = w"
  unfolding be_word8_def be_bytes8_def
  apply (rule bit_word_eqI)
  apply (simp add: bit_or_iff bit_slice8 bit_slice8_low)
  apply arith
  done

lemma bit_place8:
  "j \<le> 56 \<Longrightarrow>
   bit (push_bit j (ucast b) :: 64 word) m = (j \<le> m \<and> m < j + 8 \<and> bit b (m - j))"
  for b :: byte
  by (auto simp add: bit_simps dest: bit_imp_le_length)

lemma bit_place8_low: "bit (ucast b :: 64 word) m = (m < 8 \<and> bit b m)"
  for b :: byte
  by (auto simp add: bit_simps dest: bit_imp_le_length)

lemma bit_byte_of8:
  "bit (ucast (drop_bit k (x :: 64 word)) :: byte) n = (n < 8 \<and> bit x (k + n))"
  by (auto simp add: bit_simps dest: bit_imp_le_length)

lemma bit_byte_of8_low: "bit (ucast (x :: 64 word) :: byte) n = (n < 8 \<and> bit x n)"
  by (auto simp add: bit_simps dest: bit_imp_le_length)

lemma be_bytes8_word8:
  "be_bytes8 (be_word8 [a, b, c, d, e, f, g, h]) = [a, b, c, d, e, f, g, h]"
  unfolding be_word8_def be_bytes8_def
  apply simp
  apply (intro conjI; rule bit_word_eqI)
         apply (simp_all only: bit_byte_of8 bit_byte_of8_low bit_or_iff)
         apply (simp_all add: bit_drop_bit_eq bit_place8 bit_place8_low)
  done

lemma length4E:
  assumes "length bs = 4"
  obtains a b c d where "bs = [a, b, c, d]"
proof -
  from assms obtain a r1 where 1: "bs = a # r1" "length r1 = 3"
    by (cases bs) auto
  then obtain b r2 where 2: "r1 = b # r2" "length r2 = 2"
    by (cases r1) auto
  then obtain c r3 where 3: "r2 = c # r3" "length r3 = 1"
    by (cases r2) auto
  then obtain d where "r3 = [d]"
    by (cases r3) auto
  with 1 2 3 that show thesis by simp
qed

lemma length8E:
  assumes "length bs = 8"
  obtains a b c d e f g h where "bs = [a, b, c, d, e, f, g, h]"
proof -
  have "length (take 4 bs) = 4" and "length (drop 4 bs) = 4"
    using assms by simp_all
  then obtain a b c d e f g h
    where "take 4 bs = [a, b, c, d]" and "drop 4 bs = [e, f, g, h]"
    by (elim length4E) blast
  then have "bs = [a, b, c, d, e, f, g, h]"
    using append_take_drop_id [of 4 bs] by simp
  then show thesis by (rule that)
qed

lemma length_bytes_of4 [simp]: "length (bytes_of4 l w) = 4"
  by (cases l) (simp_all add: bytes_of4_def be_bytes4_def)

lemma length_bytes_of8 [simp]: "length (bytes_of8 l w) = 8"
  by (cases l) (simp_all add: bytes_of8_def be_bytes8_def)

lemma value_of4_bytes_of4 [simp]: "value_of4 l (bytes_of4 l w) = w"
  by (cases l) (simp_all add: value_of4_def bytes_of4_def be_word4_bytes4)

lemma value_of8_bytes_of8 [simp]: "value_of8 l (bytes_of8 l w) = w"
  by (cases l) (simp_all add: value_of8_def bytes_of8_def be_word8_bytes8)

lemma bytes_of4_value_of4: "length bs = 4 \<Longrightarrow> bytes_of4 l (value_of4 l bs) = bs"
  by (erule length4E, cases l) (simp_all add: value_of4_def bytes_of4_def be_bytes4_word4)

lemma bytes_of8_value_of8: "length bs = 8 \<Longrightarrow> bytes_of8 l (value_of8 l bs) = bs"
  by (erule length8E, cases l) (simp_all add: value_of8_def bytes_of8_def be_bytes8_word8)

text \<open>Both swaps reverse the bytes of the value in memory.\<close>

lemma swapi_rev: "swapi l i = value_of4 l (rev (bytes_of4 l i))"
proof -
  obtain a b c d where "bytes_of4 l i = [a, b, c, d]"
    using length_bytes_of4 by (rule length4E)
  then show ?thesis by (simp add: swapi_def)
qed

lemma swapd_rev: "swapd l d = value_of8 l (rev (bytes_of8 l d))"
proof -
  obtain a b c e f g h k where "bytes_of8 l d = [a, b, c, e, f, g, h, k]"
    using length_bytes_of8 by (rule length8E)
  then show ?thesis by (simp add: swapd_def)
qed



text \<open>Bytes written on one platform and read on the other hold the swapped value.\<close>

lemma value_of4_other: "l' \<noteq> l \<Longrightarrow> swapi l' (value_of4 l' (bytes_of4 l w)) = w"
  by (cases l; cases l')
    (simp_all add: swapi_rev bytes_of4_value_of4,
     simp_all add: value_of4_def bytes_of4_def be_word4_bytes4)

lemma value_of8_other: "l' \<noteq> l \<Longrightarrow> swapd l' (value_of8 l' (bytes_of8 l w)) = w"
  by (cases l; cases l')
    (simp_all add: swapd_rev bytes_of8_value_of8,
     simp_all add: value_of8_def bytes_of8_def be_word8_bytes8)

section \<open>The stream monad and the primitives\<close>

lemma io_bind_return [simp]: "io_bind (io_return x) f = f x"
  by (rule ext) (simp add: io_bind_def io_return_def)

lemma io_bind_error [simp]: "io_bind (io_error e) f = io_error e"
  by (rule ext) (simp add: io_bind_def io_error_def)

lemma io_bind_Inr: "m fp = Inr (x, fp') \<Longrightarrow> io_bind m f fp = f x fp'"
  by (simp add: io_bind_def)

lemma io_bind_Inl: "m fp = Inl e \<Longrightarrow> io_bind m f fp = Inl e"
  by (simp add: io_bind_def)

lemma fread_append: "length bs = n \<Longrightarrow> 0 < n \<Longrightarrow> fread n (bs @ rest) = Inr (bs, rest)"
  by (simp add: fread_def)

lemma io_bind_fread:
  "length bs = n \<Longrightarrow> 0 < n \<Longrightarrow> io_bind (fread n) f (bs @ rest) = f bs rest"
  by (simp add: io_bind_def fread_append)

lemma bytes_of4_not_Nil [simp]: "bytes_of4 l w \<noteq> []"
  by (cases l) (simp_all add: bytes_of4_def be_bytes4_def)

lemma bytes_of8_not_Nil [simp]: "bytes_of8 l w \<noteq> []"
  by (cases l) (simp_all add: bytes_of8_def be_bytes8_def)

lemma setup_consts_BigEndian: "setup_consts BigEndian = io_return LOHI"
  by (simp add: setup_consts_def bytes_of8_def be_bytes8_def value_of4_def be_word4_def)

lemma setup_consts_LittleEndian: "setup_consts LittleEndian = io_return HILO"
  by (simp add: setup_consts_def bytes_of8_def be_bytes8_def value_of4_def be_word4_def)

lemma double_eq_DOUBLE_NA: "double_eq a STATA_DOUBLE_NA = (a = STATA_DOUBLE_NA)"
  by (auto simp add: double_eq_def ISNAN_def STATA_DOUBLE_NA_def)

lemma double_eq_FLOAT_NA: "double_eq a STATA_FLOAT_NA = (a = STATA_FLOAT_NA)"
  by (auto simp add: double_eq_def ISNAN_def STATA_FLOAT_NA_def)

lemma read_int_written:
  "InIntegerBinary lr naok (lr \<noteq> lw) (bytes_of4 lw i @ rest) =
     Inr (if i = STATA_INT_NA \<and> \<not> naok then NA_INTEGER else i, rest)"
proof (cases "lr = lw")
  case True
  then show ?thesis
    by (simp add: InIntegerBinary_def io_bind_fread io_return_def)
next
  case False
  then show ?thesis
    by (simp add: InIntegerBinary_def io_bind_fread io_return_def value_of4_other)
qed

lemma read_double_written:
  "InDoubleBinary lr naok (lr \<noteq> lw) (bytes_of8 lw d @ rest) =
     Inr (if d = STATA_DOUBLE_NA \<and> \<not> naok then NA_REAL else d, rest)"
proof (cases "lr = lw")
  case True
  then show ?thesis
    by (simp add: InDoubleBinary_def io_bind_fread io_return_def double_eq_DOUBLE_NA)
next
  case False
  then show ?thesis
    by (simp add: InDoubleBinary_def io_bind_fread io_return_def double_eq_DOUBLE_NA
        value_of8_other)
qed

lemma OutIntegerBinary_eq:
  "OutIntegerBinary l i naok fp =
     Inr ((), fp @ bytes_of4 l (if i = NA_INTEGER \<and> \<not> naok then STATA_INT_NA else i))"
  by (simp add: OutIntegerBinary_def fwrite_def)

lemma OutDoubleBinary_eq:
  "OutDoubleBinary l d naok fp =
     Inr ((), fp @ bytes_of8 l (if R_FINITE d then d else STATA_DOUBLE_NA))"
  by (simp add: OutDoubleBinary_def fwrite_def)

lemma ucast_byte_short: "(ucast (ucast (a :: byte) :: 32 word) :: 16 word) = ucast a"
  by (rule bit_word_eqI) (auto simp add: bit_simps)

lemma InShortIntBinary_eq:
  "InShortIntBinary se naok sw (a # b # fp) =
     Inr (let result = (if se = LOHI then push_bit 8 (ucast a) OR ucast b
                        else push_bit 8 (ucast b) OR ucast a) :: 16 word
          in if result = STATA_SHORTINT_NA \<and> \<not> naok then NA_INTEGER else ucast result, fp)"
  by (simp add: InShortIntBinary_def InByteBinary_def io_bind_def io_return_def Let_def
      ucast_byte_short)

lemma ucast_byte_int: "(ucast (ucast (b :: byte) :: 32 word) :: byte) = b"
  by (rule bit_word_eqI) (auto simp add: bit_simps)

lemma InByteBinary_Cons:
  "InByteBinary naok (b # fp) = Inr (if b = STATA_BYTE_NA \<and> \<not> naok then NA_INTEGER else ucast b, fp)"
  by (simp add: InByteBinary_def)

lemma io_bind_InByteBinary:
  "io_bind (InByteBinary True) f (b # fp) = f (ucast b) fp"
  by (simp add: io_bind_def InByteBinary_def)

lemma setup_consts_succeeds: "setup_consts l = io_return (case l of BigEndian \<Rightarrow> LOHI | LittleEndian \<Rightarrow> HILO)"
  by (cases l) (simp_all add: setup_consts_BigEndian setup_consts_LittleEndian)

lemma io_error_apply: "io_error e fp = Inl (e, fp)"
  by (simp add: io_error_def)

lemma elt_in_range: "i < length xs \<Longrightarrow> elt past xs i = xs ! i"
  by (simp add: elt_def)

lemma float_sentinel_widened: "double_of_float 0x7F000000 = STATA_FLOAT_NA"
  by (simp add: double_of_float_def STATA_FLOAT_NA_def)

lemma float_sentinel_narrowed: "float_of_double STATA_FLOAT_NA = 0x7F000000"
  by (simp add: float_of_double_def STATA_FLOAT_NA_def)

lemma float_NA_REAL: "float_of_double NA_REAL = 0x7FC00000"
  by (simp add: float_of_double_def NA_REAL_def)

lemma float_NA_REAL_widened: "double_of_float (float_of_double NA_REAL) = 0x7FF8000000000000"
  by (simp add: float_NA_REAL) (simp add: double_of_float_def)

lemma read_float_sentinel:
  "InFloatBinary lr naok (lr \<noteq> lw) (bytes_of4 lw 0x7F000000 @ rest) =
     Inr (if naok then 0x7F000000 else float_of_double NA_REAL, rest)"
proof (cases "lr = lw")
  case True
  then show ?thesis
    by (simp add: InFloatBinary_def io_bind_fread io_return_def float_sentinel_widened
        double_eq_FLOAT_NA)
next
  case False
  then have "swapf lr (value_of4 lr (bytes_of4 lw 0x7F000000)) = STATA_FLOAT_NA"
    using value_of4_other [of lr lw "0x7F000000"]
    by (simp add: swapf_def swapi_def Let_def float_sentinel_widened)
  with False show ?thesis
    by (simp add: InFloatBinary_def io_bind_fread io_return_def float_sentinel_narrowed
        float_sentinel_widened double_eq_FLOAT_NA)
qed

lemma short_sentinel_LOHI:
  "InShortIntBinary LOHI naok sw (0x7F # 0xFF # fp) =
     Inr (if naok then 32767 else NA_INTEGER, fp)"
  by (simp add: InShortIntBinary_eq STATA_SHORTINT_NA_def)

lemma short_sentinel_HILO:
  "InShortIntBinary HILO naok sw (0xFF # 0x7F # fp) =
     Inr (if naok then 32767 else NA_INTEGER, fp)"
  by (simp add: InShortIntBinary_eq STATA_SHORTINT_NA_def HILO_def LOHI_def)

lemma type_tags_distinct:
  "STATA_DOUBLE \<noteq> STATA_FLOAT" "STATA_INT \<noteq> STATA_FLOAT" "STATA_INT \<noteq> STATA_DOUBLE"
  "STATA_SHORTINT \<noteq> STATA_FLOAT" "STATA_SHORTINT \<noteq> STATA_DOUBLE" "STATA_SHORTINT \<noteq> STATA_INT"
  "STATA_BYTE \<noteq> STATA_FLOAT" "STATA_BYTE \<noteq> STATA_DOUBLE" "STATA_BYTE \<noteq> STATA_INT"
  "STATA_BYTE \<noteq> STATA_SHORTINT"
  by (simp_all add: STATA_FLOAT_def STATA_DOUBLE_def STATA_INT_def STATA_SHORTINT_def STATA_BYTE_def)

lemma read_cell_FLOAT:
  "read_cell l se sw STATA_FLOAT i col =
     io_bind (InFloatBinary l False sw) (\<lambda>v. io_return (set_REAL col i (double_of_float v)))"
  by (simp add: read_cell_def)

lemma read_cell_DOUBLE:
  "read_cell l se sw STATA_DOUBLE i col =
     io_bind (InDoubleBinary l False sw) (\<lambda>v. io_return (set_REAL col i v))"
  by (simp add: read_cell_def type_tags_distinct)

lemma read_cell_INT:
  "read_cell l se sw STATA_INT i col =
     io_bind (InIntegerBinary l False sw) (\<lambda>v. io_return (set_INTEGER col i v))"
  by (simp add: read_cell_def type_tags_distinct)

lemma read_cell_SHORTINT:
  "read_cell l se sw STATA_SHORTINT i col =
     io_bind (InShortIntBinary se False sw) (\<lambda>v. io_return (set_INTEGER col i v))"
  by (simp add: read_cell_def type_tags_distinct)

lemma read_cell_BYTE:
  "read_cell l se sw STATA_BYTE i col =
     io_bind (InByteBinary False) (\<lambda>v. io_return (set_INTEGER col i v))"
  by (simp add: read_cell_def type_tags_distinct)

lemma allocVector_nonneg: "0 \<le> sint n \<Longrightarrow> allocVector n x = io_return (replicate (unat n) x)"
  by (rule ext) (simp add: allocVector_def)

lemma alloc_column_string:
  assumes "STATA_STRINGOFFSET \<le> abyte" and "0 \<le> sint nobs"
  shows "alloc_column abyte nobs = io_return (STRSXP (replicate (unat nobs) []))"
proof -
  from assms(1) have "abyte \<noteq> STATA_FLOAT" "abyte \<noteq> STATA_DOUBLE" "abyte \<noteq> STATA_INT"
    "abyte \<noteq> STATA_SHORTINT" "abyte \<noteq> STATA_BYTE" "\<not> abyte < STATA_STRINGOFFSET"
    by (auto simp add: STATA_STRINGOFFSET_def STATA_FLOAT_def STATA_DOUBLE_def STATA_INT_def
        STATA_SHORTINT_def STATA_BYTE_def)
  with assms(2) show ?thesis
    by (simp add: alloc_column_def allocVector_nonneg)
qed

lemma alloc_column_unknown:
  assumes "abyte < STATA_STRINGOFFSET"
    and "abyte \<notin> {STATA_FLOAT, STATA_DOUBLE, STATA_INT, STATA_SHORTINT, STATA_BYTE}"
  shows "alloc_column abyte nobs = io_error UnknownDataType"
  using assms by (simp add: alloc_column_def)

lemma alloc_column_unknown_only:
  assumes "alloc_column abyte nobs fp = Inl (UnknownDataType, fp')"
  shows "abyte < STATA_STRINGOFFSET \<and>
         abyte \<notin> {STATA_FLOAT, STATA_DOUBLE, STATA_INT, STATA_SHORTINT, STATA_BYTE}"
  using assms
  by (auto simp add: alloc_column_def allocVector_def io_bind_def io_return_def io_error_def
      split: if_splits)

lemma read_types_Cons:
  "read_types nobs (Suc n) (abyte # fp) =
     io_bind (alloc_column abyte nobs) (\<lambda>col.
     io_bind (read_types nobs n) (\<lambda>(types, df).
     io_return (abyte # types, col # df))) fp"
  by (simp add: io_bind_InByteBinary ucast_byte_int)

lemma InShortIntBinary_announced:
  "\<exists>n. InShortIntBinary se True sw (a # b # fp) = Inr (n, fp) \<and>
       unat n = announced_length se a b"
  by (simp add: InShortIntBinary_eq announced_length_def Let_def)

lemma skip_bytes_append: "skip_bytes (length bs) (bs @ fp) = Inr ((), fp)"
  by (induction bs) (simp_all add: io_return_def io_bind_InByteBinary)

lemma ucast_byte_eq_0: "(ucast (t :: byte) :: 32 word) = 0 \<longleftrightarrow> t = 0"
proof
  assume "(ucast t :: 32 word) = 0"
  then have "(ucast (ucast t :: 32 word) :: byte) = 0" by simp
  then show "t = 0" by (simp add: ucast_byte_int)
qed simp

lemma skip_characteristic_record:
  assumes "length payload = announced_length se a b"
  shows "skip_characteristic se sw (a # b # payload @ fp) = Inr ((), fp)"
proof -
  obtain n where "InShortIntBinary se True sw (a # b # payload @ fp) = Inr (n, payload @ fp)"
    and "unat n = announced_length se a b"
    using InShortIntBinary_announced by blast
  moreover have "skip_bytes (length payload) (payload @ fp) = Inr ((), fp)"
    by (rule skip_bytes_append)
  ultimately have "InShortIntBinary se True sw (a # b # payload @ fp) = Inr (n, payload @ fp)"
    and "skip_bytes (unat n) (payload @ fp) = Inr ((), fp)"
    using assms by simp_all
  then show ?thesis
    by (simp add: skip_characteristic_def io_bind_def)
qed

lemma characteristic_bytes_record: "characteristic_bytes (t, a, b, payload) = t # a # b # payload"
  by (simp add: characteristic_bytes_def)

lemma skip_characteristics_records:
  assumes "\<forall>r \<in> set recs. well_formed_characteristic se r"
  shows "skip_characteristics se sw (concat (map characteristic_bytes recs) @ 0 # fp) =
           Inr ((), fp)"
  using assms
proof (induction recs)
  case Nil
  show ?case
    by (subst skip_characteristics.simps) (simp add: InByteBinary_Cons)
next
  case (Cons r recs)
  obtain t a b payload where r: "r = (t, a, b, payload)"
    by (cases r) auto
  from Cons.prems r have t: "t \<noteq> 0" and len: "length payload = announced_length se a b"
    by (simp_all add: well_formed_characteristic_def)
  let ?more = "concat (map characteristic_bytes recs) @ 0 # fp"
  have "skip_characteristics se sw (t # a # b # payload @ ?more) =
      skip_characteristics se sw ?more"
    by (subst skip_characteristics.simps)
      (simp add: InByteBinary_Cons ucast_byte_eq_0 t skip_characteristic_record [OF len])
  with Cons show ?case
    by (simp add: r characteristic_bytes_record)
qed

lemma read_characteristics_records:
  assumes "\<forall>r \<in> set recs. well_formed_characteristic (h_stata_endian h) r"
  shows "read_characteristics h (concat (map characteristic_bytes recs) @ 0 # a # b # fp) =
           (if announced_length (h_stata_endian h) a b = 0 then Inr ((), fp)
            else Inl (StrangeCharacteristic, fp))"
proof -
  obtain n where n: "InShortIntBinary (h_stata_endian h) True (h_swapends h) (a # b # fp) = Inr (n, fp)"
    and "unat n = announced_length (h_stata_endian h) a b"
    using InShortIntBinary_announced by blast
  then have "announced_length (h_stata_endian h) a b = 0 \<longleftrightarrow> n = 0"
    by (metis unat_0_iff)
  moreover have "skip_characteristics (h_stata_endian h) (h_swapends h)
      (concat (map characteristic_bytes recs) @ 0 # a # b # fp) = Inr ((), a # b # fp)"
    using assms by (rule skip_characteristics_records)
  ultimately show ?thesis
    using n by (simp add: read_characteristics_def io_bind_def io_error_def io_return_def)
qed

section \<open>The name loops\<close>

lemma length_nameMangle_loop [simp]: "length (nameMangle_loop s len i) = length s"
proof (induction s len i rule: nameMangle_loop.induct)
  case (1 stataname len i)
  then show ?case
    by (subst nameMangle_loop.simps) simp
qed

lemma nth_nameMangle_loop:
  "j < length s \<Longrightarrow>
   nameMangle_loop s len i ! j =
     (if i \<le> j \<and> j < len then (if s ! j = 0x5F then 0x2E else s ! j) else s ! j)"
proof (induction s len i rule: nameMangle_loop.induct)
  case (1 stataname len i)
  show ?case
  proof (cases "i < len \<and> i < length stataname")
    case True
    let ?s = "if stataname ! i = 0x5F then stataname[i := 0x2E] else stataname"
    have "nameMangle_loop stataname len i ! j = nameMangle_loop ?s len (Suc i) ! j"
      using True by (subst nameMangle_loop.simps) simp
    also have "\<dots> = (if Suc i \<le> j \<and> j < len then (if ?s ! j = 0x5F then 0x2E else ?s ! j)
        else ?s ! j)"
      using True "1.prems" by (intro "1.IH") simp_all
    also have "\<dots> = (if i \<le> j \<and> j < len
        then (if stataname ! j = 0x5F then 0x2E else stataname ! j) else stataname ! j)"
      using True "1.prems" by (cases "i = j") (auto simp add: nth_list_update)
    finally show ?thesis .
  next
    case False
    then have "nameMangle_loop stataname len i = stataname"
      by (subst nameMangle_loop.simps) auto
    with False "1.prems" show ?thesis by auto
  qed
qed

lemma nameMangle_map:
  "nameMangle s len = map (\<lambda>c. if c = 0x5F then 0x2E else c) (take len s) @ drop len s"
  by (rule nth_equalityI)
    (auto simp add: nameMangle_def nth_nameMangle_loop nth_append min_def)

lemma length_nameMangleOut_loop [simp]: "length (nameMangleOut_loop s len i) = length s"
proof (induction s len i rule: nameMangleOut_loop.induct)
  case (1 stataname len i)
  then show ?case
    by (subst nameMangleOut_loop.simps) simp
qed

lemma nth_nameMangleOut_loop:
  "j < length s \<Longrightarrow>
   nameMangleOut_loop s len i ! j =
     (if i \<le> j \<and> j < len then (if s ! j = 0x2E then 0x5F else s ! j) else s ! j)"
proof (induction s len i rule: nameMangleOut_loop.induct)
  case (1 stataname len i)
  show ?case
  proof (cases "i < len \<and> i < length stataname")
    case True
    let ?s = "if stataname ! i = 0x2E then stataname[i := 0x5F] else stataname"
    have "nameMangleOut_loop stataname len i ! j = nameMangleOut_loop ?s len (Suc i) ! j"
      using True by (subst nameMangleOut_loop.simps) simp
    also have "\<dots> = (if Suc i \<le> j \<and> j < len then (if ?s ! j = 0x2E then 0x5F else ?s ! j)
        else ?s ! j)"
      using True "1.prems" by (intro "1.IH") simp_all
    also have "\<dots> = (if i \<le> j \<and> j < len
        then (if stataname ! j = 0x2E then 0x5F else stataname ! j) else stataname ! j)"
      using True "1.prems" by (cases "i = j") (auto simp add: nth_list_update)
    finally show ?thesis .
  next
    case False
    then have "nameMangleOut_loop stataname len i = stataname"
      by (subst nameMangleOut_loop.simps) auto
    with False "1.prems" show ?thesis by auto
  qed
qed

lemma nameMangleOut_map:
  "nameMangleOut s len = map (\<lambda>c. if c = 0x2E then 0x5F else c) (take len s) @ drop len s"
  by (rule nth_equalityI)
    (auto simp add: nameMangleOut_def nth_nameMangleOut_loop nth_append min_def)

lemma length_strncpy [simp]: "length (strncpy src n) = n"
  by (simp add: strncpy_def Let_def)

lemma mkChar_mangled:
  assumes "0 \<in> set aname"
  shows "mkChar (map (\<lambda>c. if c = 0x5F then 0x2E else c) aname) =
     io_return (map (\<lambda>c. if c = 0x5F then 0x2E else c) (takeWhile (\<lambda>c. c \<noteq> 0) aname))"
proof -
  let ?f = "\<lambda>c :: byte. if c = 0x5F then 0x2E else c"
  have "(\<lambda>c. c \<noteq> 0) \<circ> ?f = (\<lambda>c. c \<noteq> 0)"
    by (rule ext) simp
  then have "takeWhile (\<lambda>c. c \<noteq> 0) (map ?f aname) = map ?f (takeWhile (\<lambda>c. c \<noteq> 0) aname)"
    by (simp add: takeWhile_map)
  moreover from assms have "0 \<in> set (map ?f aname)"
    by (force simp add: image_iff)
  ultimately show ?thesis
    by (simp add: mkChar_def)
qed

lemma read_names_Suc:
  assumes "length aname = 9" and "0 \<in> set aname"
  shows "read_names (Suc n) (aname @ fp) =
     io_bind (read_names n) (\<lambda>names.
       io_return (map (\<lambda>c. if c = 0x5F then 0x2E else c) (takeWhile (\<lambda>c. c \<noteq> 0) aname) # names)) fp"
proof -
  have "fread 9 (aname @ fp) = Inr (aname, fp)"
    using assms(1) by (simp add: fread_append)
  moreover have "nameMangle aname 9 = map (\<lambda>c. if c = 0x5F then 0x2E else c) aname"
    using assms(1) by (simp add: nameMangle_map)
  ultimately show ?thesis
    using assms(2)
    by (simp add: InStringBinary_def io_bind_Inr [where m = "fread 9"] mkChar_mangled)
qed

lemma strncpy_mangled_not_Nil:
  "map (\<lambda>c. if c = 0x2E then 0x5F else c) (strncpy name 8) \<noteq> []"
proof
  assume "map (\<lambda>c. if c = 0x2E then 0x5F else c) (strncpy name 8) = []"
  then have "length (strncpy name 8) = 0" by simp
  then show False by simp
qed

lemma write_names_Suc:
  assumes "i < length names"
  shows "write_names mem names (Suc n) i out =
     write_names mem names n (Suc i)
       (out @ map (\<lambda>c. if c = 0x2E then 0x5F else c) (strncpy (names ! i) 8) @ [0])"
proof -
  let ?aname = "strncpy (names ! i) 8"
  let ?m = "map (\<lambda>c. if c = 0x2E then 0x5F else c) ?aname"
  have m: "nameMangleOut ?aname 8 = ?m"
    by (simp add: nameMangleOut_map)
  have "OutStringBinary ?m 8 out = Inr ((), out @ ?m)"
    using strncpy_mangled_not_Nil [of "names ! i"]
    by (simp add: OutStringBinary_def fwrite_def)
  moreover have "OutByteBinary 0 (out @ ?m) = Inr ((), (out @ ?m) @ [0])"
    by (simp add: OutByteBinary_def fwrite_def)
  ultimately show ?thesis
    using assms
    by (simp add: elt_in_range m io_bind_def Let_def)
qed

section \<open>The writer\<close>

lemma length_take_col [simp]: "length_col (take_col n col) = min n (length_col col)"
  by (cases col) (simp_all add: min.commute)

lemma io_bind_assoc: "io_bind (io_bind m f) g = io_bind m (\<lambda>x. io_bind (f x) g)"
  by (rule ext) (simp add: io_bind_def split: sum.splits)

lemma io_bind_fwrite: "bs \<noteq> [] \<Longrightarrow> io_bind (fwrite bs) f out = f () (out @ bs)"
  by (simp add: io_bind_def fwrite_def)

lemma io_bind_OutByteBinary: "io_bind (OutByteBinary b) f out = f () (out @ [b])"
  by (simp add: OutByteBinary_def io_bind_fwrite)

lemma io_bind_OutShortIntBinary:
  "io_bind (OutShortIntBinary endian i) f out =
     f () (out @ (if endian = LOHI then [ucast (signed_drop_bit 8 i), ucast (i AND 0xff)]
                  else [ucast (i AND 0xff), ucast (signed_drop_bit 8 i)]))"
  by (simp add: OutShortIntBinary_def io_bind_assoc io_bind_fwrite)

lemma io_bind_OutIntegerBinary:
  "io_bind (OutIntegerBinary l i naok) f out =
     f () (out @ bytes_of4 l (if i = NA_INTEGER \<and> \<not> naok then STATA_INT_NA else i))"
  by (simp add: io_bind_def OutIntegerBinary_eq)

lemma io_bind_OutDoubleBinary:
  "io_bind (OutDoubleBinary l d naok) f out =
     f () (out @ bytes_of8 l (if R_FINITE d then d else STATA_DOUBLE_NA))"
  by (simp add: io_bind_def OutDoubleBinary_eq)

lemma io_bind_OutStringBinary:
  "length buffer = n \<Longrightarrow> 0 < n \<Longrightarrow> io_bind (OutStringBinary buffer n) f out = f () (out @ buffer)"
  by (auto simp add: OutStringBinary_def io_bind_fwrite)

lemma length_written_by_R: "length written_by_R = 81"
  by (simp add: written_by_R_def)

lemma write_header_eq:
  assumes "df_columns df = col0 # cols"
  shows "write_header l mem df out =
     Inr (((case l of BigEndian \<Rightarrow> LOHI | LittleEndian \<Rightarrow> HILO), Suc (length cols), length_col col0),
          out @ [108, ucast (case l of BigEndian \<Rightarrow> LOHI | LittleEndian \<Rightarrow> HILO), 1, 0] @
          (if l = BigEndian
           then [ucast (signed_drop_bit 8 (of_nat (Suc (length cols)) :: 32 word)),
                 ucast ((of_nat (Suc (length cols)) :: 32 word) AND 0xff)]
           else [ucast ((of_nat (Suc (length cols)) :: 32 word) AND 0xff),
                 ucast (signed_drop_bit 8 (of_nat (Suc (length cols)) :: 32 word))]) @
          bytes_of4 l (of_nat (length_col col0)) @ written_by_R @ replicate 18 0)"
  using assms
  by (cases l)
    (simp_all add: write_header_def setup_consts_succeeds io_bind_OutByteBinary elt_in_range
      io_bind_OutShortIntBinary io_bind_OutIntegerBinary io_bind_OutStringBinary
      length_written_by_R io_return_def LOHI_def HILO_def Let_def)

text \<open>
  An index below \<open>n\<close> finds the same value in a vector and in the vector cut to \<open>n\<close>
  elements: where the index is past the end, the cut has changed nothing.
\<close>

lemma elt_take: "i < n \<Longrightarrow> elt past (take n xs) i = elt past xs i"
  by (cases "i < length xs") (simp_all add: elt_def)

lemma scan_lengths_take:
  "j + m \<le> n \<Longrightarrow>
   scan_lengths mem (take n cells) m j k charlen = scan_lengths mem cells m j k charlen"
proof (induction m arbitrary: j k charlen)
  case 0
  show ?case by simp
next
  case (Suc m)
  then have "elt (past_string mem) (take n cells) j = elt (past_string mem) cells j"
    by (simp add: elt_take)
  moreover have "scan_lengths mem (take n cells) m (Suc j) k' c' =
      scan_lengths mem cells m (Suc j) k' c'"
    for k' c'
    using Suc.prems by (intro Suc.IH) simp
  ultimately show ?case by simp
qed

lemma write_type_take: "write_type mem n (take_col n col) k = write_type mem n col k"
  by (cases col) (simp_all add: write_type_def scan_lengths_take)

lemma write_types_take:
  "write_types mem n (map (take_col n) cols) k = write_types mem n cols k"
  by (induction cols arbitrary: k) (simp_all add: write_type_take)

lemma write_formats_take:
  "write_formats (zip (map (take_col n) cols) types) strformat =
   write_formats (zip cols types) strformat"
proof (induction cols arbitrary: types strformat)
  case Nil
  show ?case by simp
next
  case (Cons col cols)
  show ?case
  proof (cases types)
    case Nil
    then show ?thesis by simp
  next
    case (Cons t ts)
    with Cons.IH show ?thesis
      by (cases col) (simp_all add: Let_def)
  qed
qed

lemma write_cell_take:
  "i < n \<Longrightarrow> write_cell l mem i (take_col n col) t = write_cell l mem i col t"
  by (cases col) (simp_all add: write_cell_def elt_take)

lemma write_row_take:
  "i < n \<Longrightarrow>
   write_row l mem i (zip (map (take_col n) cols) types) = write_row l mem i (zip cols types)"
proof (induction cols arbitrary: types)
  case Nil
  show ?case by simp
next
  case (Cons col cols)
  then show ?case
    by (cases types) (simp_all add: write_cell_take)
qed

lemma write_rows_take:
  "i + m \<le> n \<Longrightarrow>
   write_rows l mem (zip (map (take_col n) cols) types) m i =
   write_rows l mem (zip cols types) m i"
proof (induction m arbitrary: i)
  case 0
  show ?case by simp
next
  case (Suc m)
  then have "write_row l mem i (zip (map (take_col n) cols) types) =
      write_row l mem i (zip cols types)"
    by (simp add: write_row_take)
  moreover have "write_rows l mem (zip (map (take_col n) cols) types) m (Suc i) =
      write_rows l mem (zip cols types) m (Suc i)"
    using Suc.prems by (intro Suc.IH) simp
  ultimately show ?case by simp
qed

lemma write_header_take:
  assumes "df_columns df = col0 # cols"
  shows "write_header l mem (df\<lparr>df_columns := map (take_col (length_col col0)) (col0 # cols)\<rparr>) =
         write_header l mem df"
  using assms by (simp add: write_header_def elt_def)

lemma R_SaveStataData_take:
  assumes "df_columns df = col0 # cols"
  shows "R_SaveStataData l mem (df\<lparr>df_columns := map (take_col (length_col col0)) (col0 # cols)\<rparr>) out =
         R_SaveStataData l mem df out"
proof -
  let ?n = "length_col col0"
  let ?df' = "df\<lparr>df_columns := map (take_col ?n) (col0 # cols)\<rparr>"
  obtain endian fp1
    where h: "write_header l mem df out = Inr ((endian, Suc (length cols), ?n), fp1)"
    using write_header_eq [OF assms] by blast
  then have h': "write_header l mem ?df' out = Inr ((endian, Suc (length cols), ?n), fp1)"
    by (simp only: write_header_take [OF assms])
  have cols': "df_columns ?df' = map (take_col ?n) (df_columns df)"
    and names': "df_names ?df' = df_names df"
    using assms by simp_all
  have rows: "write_rows l mem (zip (map (take_col ?n) (df_columns df)) types) ?n 0 =
      write_rows l mem (zip (df_columns df) types) ?n 0" for types
    by (rule write_rows_take) simp
  show ?thesis
    unfolding R_SaveStataData_def
      io_bind_Inr [where m = "write_header l mem df" and fp = out, OF h]
      io_bind_Inr [where m = "write_header l mem ?df'" and fp = out, OF h'] cols' names'
    by (simp only: prod.case write_types_take write_formats_take rows)
qed

lemma appends_return [simp]: "appends (io_return x)"
  by (simp add: appends_def written_def io_return_def)

lemma appends_error [simp]: "appends (io_error e)"
  by (simp add: appends_def written_def io_error_def)

lemma appends_fwrite [simp]: "appends (fwrite bs)"
  by (simp add: appends_def written_def fwrite_def)

lemma appends_bind:
  assumes "appends m" and "\<And>x. appends (f x)"
  shows "appends (io_bind m f)"
  unfolding appends_def
proof
  fix out
  from assms(1) obtain s where s: "written (m out) = out @ s"
    unfolding appends_def by blast
  show "\<exists>s. written (io_bind m f out) = out @ s"
  proof (cases "m out")
    case (Inl a)
    with s show ?thesis
      by (cases a) (simp add: io_bind_def written_def)
  next
    case (Inr b)
    obtain x fp where b: "b = (x, fp)"
      by (cases b)
    with Inr s have "fp = out @ s"
      by (simp add: written_def)
    moreover from assms(2) obtain s' where "written (f x fp) = fp @ s'"
      unfolding appends_def by blast
    ultimately show ?thesis
      using Inr b by (simp add: io_bind_def)
  qed
qed

lemma appends_case_prod: "(\<And>a b. appends (f a b)) \<Longrightarrow> appends (case p of (a, b) \<Rightarrow> f a b)"
  by (cases p) simp

lemma appends_OutByteBinary [simp]: "appends (OutByteBinary b)"
  by (simp add: OutByteBinary_def)

lemma appends_OutStringBinary [simp]: "appends (OutStringBinary buffer n)"
  by (simp add: OutStringBinary_def)

lemma appends_OutIntegerBinary [simp]: "appends (OutIntegerBinary l i naok)"
  by (simp add: OutIntegerBinary_def Let_def)

lemma appends_OutDoubleBinary [simp]: "appends (OutDoubleBinary l d naok)"
  by (simp add: OutDoubleBinary_def Let_def)

lemma appends_scan_lengths [simp]: "appends (scan_lengths mem cells n j k charlen)"
  by (induction n arbitrary: j k charlen) (simp_all add: Let_def)

lemma appends_write_type [simp]: "appends (write_type mem nobs col k)"
  by (cases col) (simp_all add: write_type_def appends_bind appends_case_prod)

lemma appends_write_types [simp]: "appends (write_types mem nobs cols k)"
  by (induction cols arbitrary: k) (simp_all add: appends_bind appends_case_prod)

lemma appends_write_names [simp]: "appends (write_names mem names n i)"
  by (induction n arbitrary: i) (simp_all add: appends_bind Let_def)

lemma appends_write_zeros [simp]: "appends (write_zeros n)"
  by (induction n) (simp_all add: appends_bind)

lemma appends_write_formats [simp]: "appends (write_formats cts strformat)"
  by (induction cts strformat rule: write_formats.induct) (simp_all add: appends_bind Let_def)

lemma appends_write_value_labels [simp]: "appends (write_value_labels n)"
  by (induction n) (simp_all add: appends_bind)

lemma appends_write_var_labels [simp]: "appends (write_var_labels mem names n i)"
  by (induction n arbitrary: i) (simp_all add: appends_bind Let_def)

lemma appends_write_cell [simp]: "appends (write_cell l mem i col t)"
  by (cases col) (simp_all add: write_cell_def appends_bind Let_def)

lemma appends_write_row [simp]: "appends (write_row l mem i cts)"
  by (induction cts) (auto simp add: appends_bind)

lemma appends_write_rows [simp]: "appends (write_rows l mem cts n i)"
  by (induction n arbitrary: i) (simp_all add: appends_bind)

text \<open>What follows the header leaves the header as it is, however the writing ends.\<close>

lemma R_SaveStataData_header:
  assumes "write_header l mem df out = Inr ((endian, nvar, nobs), fp1)"
  shows "\<exists>s. written (R_SaveStataData l mem df out) = fp1 @ s"
proof -
  let ?rest = "io_bind (write_types mem nobs (df_columns df) 0) (\<lambda>types.
     io_bind (write_names mem (df_names df) nvar 0) (\<lambda>_.
     io_bind (write_zeros (2 * (nvar + 1))) (\<lambda>_.
     io_bind (write_formats (zip (df_columns df) types) (replicate 12 0)) (\<lambda>_.
     io_bind (write_value_labels nvar) (\<lambda>_.
     io_bind (write_var_labels mem (df_names df) nvar 0) (\<lambda>_.
     io_bind (OutByteBinary 0) (\<lambda>_.
     io_bind (OutByteBinary 0) (\<lambda>_.
     io_bind (OutByteBinary 0) (\<lambda>_.
     write_rows l mem (zip (df_columns df) types) nobs 0)))))))))"
  have "appends ?rest"
    by (intro appends_bind appends_write_types appends_write_names appends_write_zeros
        appends_write_formats appends_write_value_labels appends_write_var_labels
        appends_OutByteBinary appends_write_rows)
  moreover have "R_SaveStataData l mem df out = ?rest fp1"
    using assms by (simp add: R_SaveStataData_def io_bind_Inr [where m = "write_header l mem df"])
  ultimately show ?thesis
    unfolding appends_def by simp
qed

text \<open>
  The loop of lines 550-554 leaves in \<^verbatim>\<open>k\<close> the length of the last string it has looked at,
  which is string \<open>j + n - 1\<close>, inside the column or past its end.
\<close>

lemma scan_lengths_k:
  "\<exists>c. scan_lengths mem cells n j k charlen =
         io_return (if n = 0 then k else length (elt (past_string mem) cells (j + n - 1)), c)"
proof (induction n arbitrary: j k charlen)
  case 0
  show ?case by auto
next
  case (Suc n)
  let ?k = "length (elt (past_string mem) cells j)"
  from Suc.IH [of "Suc j" ?k "if charlen < ?k then ?k else charlen"] obtain c
    where "scan_lengths mem cells n (Suc j) ?k (if charlen < ?k then ?k else charlen) =
           io_return (if n = 0 then ?k
                      else length (elt (past_string mem) cells (Suc j + n - 1)), c)"
    by blast
  then show ?case
    by (cases n) (auto simp add: Let_def)
qed

lemma scan_lengths_last:
  assumes "j + n \<le> length cells"
  shows "\<exists>c. scan_lengths mem cells n j k charlen =
         io_return (if n = 0 then k else length (cells ! (j + n - 1)), c)"
proof (cases n)
  case 0
  then show ?thesis by auto
next
  case (Suc m)
  with assms have "elt (past_string mem) cells (j + n - 1) = cells ! (j + n - 1)"
    by (intro elt_in_range) simp
  moreover from scan_lengths_k [of mem cells n j k charlen] Suc obtain c
    where "scan_lengths mem cells n j k charlen =
      io_return (length (elt (past_string mem) cells (j + n - 1)), c)"
    by auto
  ultimately show ?thesis
    using Suc by auto
qed

section \<open>The header written and read back\<close>

text \<open>
  A reader on a platform with layout \<open>lr\<close> that reads a header written on a platform with
  layout \<open>lw\<close> sets \<^verbatim>\<open>swapends\<close> exactly when the two layouts differ, and finds the
  observation count that was written.
\<close>

lemma endian_code_differs:
  "((case lr of BigEndian \<Rightarrow> LOHI | LittleEndian \<Rightarrow> HILO) \<noteq>
    (case lw of BigEndian \<Rightarrow> LOHI | LittleEndian \<Rightarrow> HILO)) = (lr \<noteq> lw)"
  by (cases lr; cases lw) (simp_all add: LOHI_def HILO_def)

lemma endian_code_byte:
  "(ucast (ucast (case lw of BigEndian \<Rightarrow> LOHI | LittleEndian \<Rightarrow> HILO) :: byte) :: 32 word) =
   (case lw of BigEndian \<Rightarrow> LOHI | LittleEndian \<Rightarrow> HILO)"
  by (cases lw) (simp_all add: LOHI_def HILO_def)

lemma io_bind_InShortIntBinary:
  "io_bind (InShortIntBinary se True sw) f (a # b # fp) =
     f (ucast ((if se = LOHI then push_bit 8 (ucast a) OR ucast b
                else push_bit 8 (ucast b) OR ucast a) :: 16 word)) fp"
  by (simp add: io_bind_def InShortIntBinary_eq)

lemma io_bind_read_int_written:
  "io_bind (InIntegerBinary lr True (lr \<noteq> lw)) f (bytes_of4 lw i @ rest) = f i rest"
  by (simp add: io_bind_def read_int_written)

lemma io_bind_InStringBinary:
  "length bs = n \<Longrightarrow> 0 < n \<Longrightarrow> io_bind (InStringBinary n) f (bs @ rest) = f bs rest"
  by (simp add: InStringBinary_def io_bind_fread)

lemma read_written_header:
  assumes "df_columns df = col0 # cols"
    and "write_header lw mem df [] = Inr (r, hdr)"
  shows "\<exists>h. read_header lr (hdr @ rest) = Inr (h, rest) \<and>
             h_swapends h = (lr \<noteq> lw) \<and>
             h_nobs h = of_nat (length_col col0) \<and>
             \<not> h_version5 h"
proof -
  let ?ew = "case lw of BigEndian \<Rightarrow> LOHI | LittleEndian \<Rightarrow> HILO"
  obtain a b where hdr: "hdr = 108 # ucast ?ew # 1 # 0 # a # b #
      bytes_of4 lw (of_nat (length_col col0)) @ written_by_R @ replicate 18 0"
    using assms(2) unfolding write_header_eq [OF assms(1)] by (cases "lw = BigEndian") auto
  have "io_bind (InStringBinary 81) f (written_by_R @ more) = f written_by_R more"
    for f :: "byte list \<Rightarrow> header io" and more
    by (rule io_bind_InStringBinary) (simp_all add: length_written_by_R)
  moreover have "io_bind (InStringBinary 18) f (replicate 18 0 @ more) = f (replicate 18 0) more"
    for f :: "byte list \<Rightarrow> header io" and more
    by (rule io_bind_InStringBinary) simp_all
  ultimately show ?thesis
    by (simp add: hdr read_header_def setup_consts_succeeds io_bind_InByteBinary ucast_byte_int
        endian_code_byte endian_code_differs io_bind_InShortIntBinary io_bind_read_int_written
        io_return_def Let_def)
qed

section \<open>Byte swapping is an involution\<close>



section \<open>The version byte\<close>

text \<open>
  Claim C4.  A stream whose first byte is neither 0x69 (version 5) nor 0x6C (version 6) is
  rejected with the error "Not a Stata v5 or v6 file", and nothing after that byte has
  been read: the stream left at the error is the whole rest of the input, whatever it is
  (it may be empty, where any further read would have raised the read error instead).
\<close>

theorem unsupported_version_rejected:
  assumes "b \<noteq> 0x69" and "b \<noteq> 0x6C"
  shows "R_LoadStataData l (b # rest) = Inl (NotStataFile, rest)"
proof -
  have "read_header l (b # rest) = Inl (NotStataFile, rest)"
    using assms
    by (simp add: read_header_def setup_consts_succeeds io_bind_InByteBinary ucast_byte_int
        io_error_apply)
  then show ?thesis
    by (simp add: R_LoadStataData_def io_bind_Inl)
qed

theorem unsupported_version_rejected_witness:
  "R_LoadStataData LittleEndian [0x6D, 1, 2] = Inl (NotStataFile, [1, 2]) \<and>
   R_LoadStataData BigEndian [0x00] = Inl (NotStataFile, [])"
  using unsupported_version_rejected [of "0x6D" LittleEndian "[1, 2]"]
    unsupported_version_rejected [of "0x00" BigEndian "[]"]
  by simp

section \<open>Values written and read back\<close>

text \<open>
  A value written by \<^verbatim>\<open>R_SaveStataData\<close> on a platform with layout \<open>lw\<close> is read by
  \<^verbatim>\<open>R_LoadStataData\<close> on a platform with layout \<open>lr\<close> with \<^verbatim>\<open>swapends\<close> set exactly when
  the two layouts differ (lemma \<open>read_written_header\<close>): below, \<open>lr \<noteq> lw\<close> is the value of
  \<^verbatim>\<open>swapends\<close>.
\<close>

text \<open>
  Claim C2, as stated, fails: positive infinity is a double other than the sentinel
  \<open>2^1023\<close>, it is written as the sentinel, and it is read back as \<^verbatim>\<open>NA_REAL\<close>.
\<close>

theorem infinity_does_not_round_trip:
  "\<not> R_FINITE 0x7FF0000000000000 \<and>
   (0x7FF0000000000000 :: 64 word) \<noteq> STATA_DOUBLE_NA \<and>
   OutDoubleBinary LittleEndian 0x7FF0000000000000 False [] =
     Inr ((), [0, 0, 0, 0, 0, 0, 0xE0, 0x7F]) \<and>
   InDoubleBinary LittleEndian False False [0, 0, 0, 0, 0, 0, 0xE0, 0x7F] = Inr (NA_REAL, []) \<and>
   NA_REAL \<noteq> 0x7FF0000000000000"
proof -
  have bytes: "bytes_of8 LittleEndian STATA_DOUBLE_NA = [0, 0, 0, 0, 0, 0, 0xE0, 0x7F]"
    by (simp add: STATA_DOUBLE_NA_def bytes_of8_def be_bytes8_def)
  have inf: "\<not> R_FINITE 0x7FF0000000000000"
    by (simp add: R_FINITE_def)
  have out: "OutDoubleBinary LittleEndian 0x7FF0000000000000 False [] =
      Inr ((), [0, 0, 0, 0, 0, 0, 0xE0, 0x7F])"
    using inf by (simp add: OutDoubleBinary_eq bytes)
  have rd: "InDoubleBinary LittleEndian False False [0, 0, 0, 0, 0, 0, 0xE0, 0x7F] =
      Inr (NA_REAL, [])"
    using read_double_written [of LittleEndian False LittleEndian STATA_DOUBLE_NA "[]"]
    by (simp add: bytes)
  have "(0x7FF0000000000000 :: 64 word) \<noteq> STATA_DOUBLE_NA"
    and "NA_REAL \<noteq> 0x7FF0000000000000"
    by (simp_all add: STATA_DOUBLE_NA_def NA_REAL_def)
  with inf out rd show ?thesis by blast
qed

text \<open>
  Claim C2, amended.  Every finite double other than the sentinel \<open>2^1023\<close> and every int
  other than the sentinel 2147483647 is read back exactly as it was written (the int
  \<^verbatim>\<open>NA_INTEGER\<close> by way of the sentinel); the sentinel itself is read back as the missing
  value.  There is no float encoding: a real column is written as doubles.
\<close>

theorem finite_values_round_trip:
  "(R_FINITE d \<and> d \<noteq> STATA_DOUBLE_NA \<longrightarrow>
      OutDoubleBinary lw d False fp = Inr ((), fp @ bytes_of8 lw d) \<and>
      InDoubleBinary lr False (lr \<noteq> lw) (bytes_of8 lw d @ rest) = Inr (d, rest)) \<and>
   (i \<noteq> STATA_INT_NA \<longrightarrow>
      (\<exists>bs. OutIntegerBinary lw i False fp = Inr ((), fp @ bs) \<and>
            InIntegerBinary lr False (lr \<noteq> lw) (bs @ rest) = Inr (i, rest))) \<and>
   OutDoubleBinary lw STATA_DOUBLE_NA False fp = Inr ((), fp @ bytes_of8 lw STATA_DOUBLE_NA) \<and>
   InDoubleBinary lr False (lr \<noteq> lw) (bytes_of8 lw STATA_DOUBLE_NA @ rest) = Inr (NA_REAL, rest) \<and>
   OutIntegerBinary lw STATA_INT_NA False fp = Inr ((), fp @ bytes_of4 lw STATA_INT_NA) \<and>
   InIntegerBinary lr False (lr \<noteq> lw) (bytes_of4 lw STATA_INT_NA @ rest) = Inr (NA_INTEGER, rest)"
proof (intro conjI impI)
  assume "R_FINITE d \<and> d \<noteq> STATA_DOUBLE_NA"
  then show "OutDoubleBinary lw d False fp = Inr ((), fp @ bytes_of8 lw d)"
    and "InDoubleBinary lr False (lr \<noteq> lw) (bytes_of8 lw d @ rest) = Inr (d, rest)"
    by (simp_all add: OutDoubleBinary_eq read_double_written)
next
  assume i: "i \<noteq> STATA_INT_NA"
  show "\<exists>bs. OutIntegerBinary lw i False fp = Inr ((), fp @ bs) \<and>
            InIntegerBinary lr False (lr \<noteq> lw) (bs @ rest) = Inr (i, rest)"
  proof (cases "i = NA_INTEGER")
    case True
    then show ?thesis
      by (simp add: OutIntegerBinary_eq read_int_written)
  next
    case False
    with i show ?thesis
      by (simp add: OutIntegerBinary_eq read_int_written)
  qed
next
  show "OutDoubleBinary lw STATA_DOUBLE_NA False fp = Inr ((), fp @ bytes_of8 lw STATA_DOUBLE_NA)"
    by (simp add: OutDoubleBinary_eq)
  show "InDoubleBinary lr False (lr \<noteq> lw) (bytes_of8 lw STATA_DOUBLE_NA @ rest) = Inr (NA_REAL, rest)"
    by (simp add: read_double_written)
  show "OutIntegerBinary lw STATA_INT_NA False fp = Inr ((), fp @ bytes_of4 lw STATA_INT_NA)"
    by (simp add: OutIntegerBinary_eq STATA_INT_NA_def NA_INTEGER_def)
  show "InIntegerBinary lr False (lr \<noteq> lw) (bytes_of4 lw STATA_INT_NA @ rest) = Inr (NA_INTEGER, rest)"
    by (simp add: read_int_written)
qed

theorem finite_values_round_trip_witness:
  "R_FINITE 0x3FF0000000000000 \<and> (0x3FF0000000000000 :: 64 word) \<noteq> STATA_DOUBLE_NA \<and>
   (5 :: 32 word) \<noteq> STATA_INT_NA \<and>
   InDoubleBinary BigEndian False True (bytes_of8 LittleEndian 0x3FF0000000000000 @ []) =
     Inr (0x3FF0000000000000, []) \<and>
   (\<exists>bs. OutIntegerBinary LittleEndian 5 False [] = Inr ((), [] @ bs) \<and>
         InIntegerBinary BigEndian False True (bs @ []) = Inr (5, []))"
  using finite_values_round_trip [of "0x3FF0000000000000" LittleEndian "[]" BigEndian "[]" 5]
  by (simp add: R_FINITE_def STATA_DOUBLE_NA_def STATA_INT_NA_def)

section \<open>Missing values\<close>

text \<open>
  Claim C8.  A cell of a real column that is not finite (a NaN, \<^verbatim>\<open>NA_REAL\<close> among them,
  or an infinity of either sign) is written as the double sentinel \<open>2^1023\<close>, and a data
  cell of type double that holds the sentinel is read as \<^verbatim>\<open>NA_REAL\<close>, R's missing real:
  after writing and reading, every such value is missing.
\<close>

theorem nonfinite_reals_become_missing:
  assumes "i < length xs" and "\<not> R_FINITE (xs ! i)"
  shows "write_cell lw mem i (REALSXP xs) t fp = Inr ((), fp @ bytes_of8 lw STATA_DOUBLE_NA) \<and>
         read_cell lr se (lr \<noteq> lw) STATA_DOUBLE j col (bytes_of8 lw STATA_DOUBLE_NA @ rest) =
           Inr (set_REAL col j NA_REAL, rest) \<and>
         R_IsNA NA_REAL"
proof (intro conjI)
  show "write_cell lw mem i (REALSXP xs) t fp = Inr ((), fp @ bytes_of8 lw STATA_DOUBLE_NA)"
    using assms by (simp add: write_cell_def elt_in_range OutDoubleBinary_eq)
  show "read_cell lr se (lr \<noteq> lw) STATA_DOUBLE j col (bytes_of8 lw STATA_DOUBLE_NA @ rest) =
      Inr (set_REAL col j NA_REAL, rest)"
    by (simp add: read_cell_DOUBLE io_bind_Inr [where x = NA_REAL and fp' = rest]
        read_double_written io_return_def)
  show "R_IsNA NA_REAL"
    by (simp add: R_IsNA_def ISNAN_def NA_REAL_def)
qed

theorem nonfinite_reals_become_missing_witness:
  "write_cell LittleEndian example_memory 0
     (REALSXP [0x7FF0000000000000, 0xFFF0000000000000, 0x7FF8000000000000]) 0 [] =
     Inr ((), [0, 0, 0, 0, 0, 0, 0xE0, 0x7F]) \<and>
   write_cell LittleEndian example_memory 1
     (REALSXP [0x7FF0000000000000, 0xFFF0000000000000, 0x7FF8000000000000]) 0 [] =
     Inr ((), [0, 0, 0, 0, 0, 0, 0xE0, 0x7F]) \<and>
   write_cell LittleEndian example_memory 2
     (REALSXP [0x7FF0000000000000, 0xFFF0000000000000, 0x7FF8000000000000]) 0 [] =
     Inr ((), [0, 0, 0, 0, 0, 0, 0xE0, 0x7F]) \<and>
   read_cell BigEndian LOHI True STATA_DOUBLE 0 (REALSXP [0]) [0, 0, 0, 0, 0, 0, 0xE0, 0x7F] =
     Inr (REALSXP [NA_REAL], [])"
proof -
  let ?xs = "[0x7FF0000000000000, 0xFFF0000000000000, 0x7FF8000000000000] :: 64 word list"
  have bytes: "bytes_of8 LittleEndian STATA_DOUBLE_NA = [0, 0, 0, 0, 0, 0, 0xE0, 0x7F]"
    by (simp add: STATA_DOUBLE_NA_def bytes_of8_def be_bytes8_def)
  have 0: "0 < length ?xs" "\<not> R_FINITE (?xs ! 0)"
    and 1: "1 < length ?xs" "\<not> R_FINITE (?xs ! 1)"
    and 2: "2 < length ?xs" "\<not> R_FINITE (?xs ! 2)"
    by (simp_all add: R_FINITE_def)
  show ?thesis
    using nonfinite_reals_become_missing [OF 0, of LittleEndian example_memory 0 "[]"
        BigEndian LOHI 0 "REALSXP [0]" "[]"]
      nonfinite_reals_become_missing [OF 1, of LittleEndian example_memory 0 "[]"
        BigEndian LOHI 0 "REALSXP [0]" "[]"]
      nonfinite_reals_become_missing [OF 2, of LittleEndian example_memory 0 "[]"
        BigEndian LOHI 0 "REALSXP [0]" "[]"]
    by (simp add: bytes)
qed

text \<open>
  Claim C3, as stated, fails in two places.  The writer never produces the storage kinds
  byte, short and float: a missing value read from a byte column is held in an integer
  column, the writer gives that column the type long-int and writes the cell as the four
  bytes of 2147483647, not as the byte 127.  And a float cell that holds the sentinel
  \<open>2^127\<close> is not read as \<^verbatim>\<open>NA_REAL\<close>: line 185 returns \<^verbatim>\<open>(float) NA_REAL\<close>, and the column
  gets the NaN \<open>0x7FF8000000000000\<close>, which \<^verbatim>\<open>R_IsNA\<close> does not take for a missing value
  (a double cell with its sentinel is read as \<^verbatim>\<open>NA_REAL\<close>).
\<close>

theorem sentinels_of_byte_and_float:
  "read_cell LittleEndian HILO False STATA_BYTE 0 (INTSXP [0]) [0x7F] =
     Inr (INTSXP [NA_INTEGER], []) \<and>
   write_type example_memory 1 (INTSXP [NA_INTEGER]) 0 [] = Inr ((0, 0), [STATA_INT]) \<and>
   write_cell LittleEndian example_memory 0 (INTSXP [NA_INTEGER]) 0 [] =
     Inr ((), [0xFF, 0xFF, 0xFF, 0x7F]) \<and>
   [0xFF, 0xFF, 0xFF, 0x7F] \<noteq> [STATA_BYTE_NA] \<and>
   read_cell LittleEndian HILO False STATA_FLOAT 0 (REALSXP [0]) [0x00, 0x00, 0x00, 0x7F] =
     Inr (REALSXP [0x7FF8000000000000], []) \<and>
   \<not> R_IsNA 0x7FF8000000000000 \<and>
   (0x7FF8000000000000 :: 64 word) \<noteq> NA_REAL"
proof -
  have "bytes_of4 LittleEndian STATA_INT_NA = [0xFF, 0xFF, 0xFF, 0x7F]"
    by (simp add: STATA_INT_NA_def bytes_of4_def be_bytes4_def)
  then have byte: "read_cell LittleEndian HILO False STATA_BYTE 0 (INTSXP [0]) [0x7F] =
      Inr (INTSXP [NA_INTEGER], [])"
    "write_type example_memory 1 (INTSXP [NA_INTEGER]) 0 [] = Inr ((0, 0), [STATA_INT])"
    "write_cell LittleEndian example_memory 0 (INTSXP [NA_INTEGER]) 0 [] =
      Inr ((), [0xFF, 0xFF, 0xFF, 0x7F])"
    "[0xFF, 0xFF, 0xFF, 0x7F] \<noteq> [STATA_BYTE_NA]"
    by (simp_all add: read_cell_BYTE io_bind_def InByteBinary_Cons STATA_BYTE_NA_def io_return_def
        write_type_def OutByteBinary_def fwrite_def write_cell_def elt_def OutIntegerBinary_eq)
  have "bytes_of4 LittleEndian 0x7F000000 = [0x00, 0x00, 0x00, 0x7F]"
    by (simp add: bytes_of4_def be_bytes4_def)
  with read_float_sentinel [of LittleEndian False LittleEndian "[]"]
  have "InFloatBinary LittleEndian False False [0x00, 0x00, 0x00, 0x7F] =
      Inr (float_of_double NA_REAL, [])"
    by simp
  then have float: "read_cell LittleEndian HILO False STATA_FLOAT 0 (REALSXP [0])
      [0x00, 0x00, 0x00, 0x7F] = Inr (REALSXP [0x7FF8000000000000], [])"
    by (simp add: read_cell_FLOAT io_bind_def io_return_def float_NA_REAL_widened)
  have "\<not> R_IsNA 0x7FF8000000000000" and "(0x7FF8000000000000 :: 64 word) \<noteq> NA_REAL"
    by (simp_all add: R_IsNA_def NA_REAL_def)
  with byte float show ?thesis
    by blast
qed

text \<open>
  Claim C3, amended.  A data cell of kind byte, short, long-int or double that holds the
  sentinel of its kind (byte 127, short 32767, long-int 2147483647, double \<open>2^1023\<close>) is
  read, with \<^verbatim>\<open>naok = 0\<close>, as the missing value: \<^verbatim>\<open>NA_INTEGER\<close> for the three integer kinds
  and \<^verbatim>\<open>NA_REAL\<close> for a double.  With \<^verbatim>\<open>naok = 1\<close> the input functions of all five kinds,
  float among them, return the sentinel itself.  The writer has two storage kinds only: a
  missing int is written as the long-int sentinel and a missing real as the double
  sentinel.
\<close>

theorem sentinels_and_missing:
  "read_cell l se sw STATA_BYTE i col (0x7F # fp) = Inr (set_INTEGER col i NA_INTEGER, fp) \<and>
   read_cell l LOHI sw STATA_SHORTINT i col (0x7F # 0xFF # fp) =
     Inr (set_INTEGER col i NA_INTEGER, fp) \<and>
   read_cell l HILO sw STATA_SHORTINT i col (0xFF # 0x7F # fp) =
     Inr (set_INTEGER col i NA_INTEGER, fp) \<and>
   read_cell lr se (lr \<noteq> lw) STATA_INT i col (bytes_of4 lw STATA_INT_NA @ fp) =
     Inr (set_INTEGER col i NA_INTEGER, fp) \<and>
   read_cell lr se (lr \<noteq> lw) STATA_DOUBLE i col (bytes_of8 lw STATA_DOUBLE_NA @ fp) =
     Inr (set_REAL col i NA_REAL, fp) \<and>
   InByteBinary True (0x7F # fp) = Inr (127, fp) \<and>
   InShortIntBinary LOHI True sw (0x7F # 0xFF # fp) = Inr (32767, fp) \<and>
   InShortIntBinary HILO True sw (0xFF # 0x7F # fp) = Inr (32767, fp) \<and>
   InIntegerBinary lr True (lr \<noteq> lw) (bytes_of4 lw STATA_INT_NA @ fp) = Inr (STATA_INT_NA, fp) \<and>
   InFloatBinary lr True (lr \<noteq> lw) (bytes_of4 lw 0x7F000000 @ fp) = Inr (0x7F000000, fp) \<and>
   InDoubleBinary lr True (lr \<noteq> lw) (bytes_of8 lw STATA_DOUBLE_NA @ fp) =
     Inr (STATA_DOUBLE_NA, fp) \<and>
   OutIntegerBinary l NA_INTEGER False out = Inr ((), out @ bytes_of4 l STATA_INT_NA) \<and>
   OutDoubleBinary l NA_REAL naok out = Inr ((), out @ bytes_of8 l STATA_DOUBLE_NA)"
proof (intro conjI)
  show "read_cell l se sw STATA_BYTE i col (0x7F # fp) = Inr (set_INTEGER col i NA_INTEGER, fp)"
    by (simp add: read_cell_BYTE io_bind_def InByteBinary_Cons STATA_BYTE_NA_def io_return_def)
  show "read_cell l LOHI sw STATA_SHORTINT i col (0x7F # 0xFF # fp) =
      Inr (set_INTEGER col i NA_INTEGER, fp)"
    by (simp add: read_cell_SHORTINT io_bind_def short_sentinel_LOHI io_return_def)
  show "read_cell l HILO sw STATA_SHORTINT i col (0xFF # 0x7F # fp) =
      Inr (set_INTEGER col i NA_INTEGER, fp)"
    by (simp add: read_cell_SHORTINT io_bind_def short_sentinel_HILO io_return_def)
  show "read_cell lr se (lr \<noteq> lw) STATA_INT i col (bytes_of4 lw STATA_INT_NA @ fp) =
      Inr (set_INTEGER col i NA_INTEGER, fp)"
    by (simp add: read_cell_INT io_bind_def read_int_written io_return_def)
  show "read_cell lr se (lr \<noteq> lw) STATA_DOUBLE i col (bytes_of8 lw STATA_DOUBLE_NA @ fp) =
      Inr (set_REAL col i NA_REAL, fp)"
    by (simp add: read_cell_DOUBLE io_bind_def read_double_written io_return_def)
  show "InByteBinary True (0x7F # fp) = Inr (127, fp)"
    by (simp add: InByteBinary_Cons)
  show "InShortIntBinary LOHI True sw (0x7F # 0xFF # fp) = Inr (32767, fp)"
    by (simp add: short_sentinel_LOHI)
  show "InShortIntBinary HILO True sw (0xFF # 0x7F # fp) = Inr (32767, fp)"
    by (simp add: short_sentinel_HILO)
  show "InIntegerBinary lr True (lr \<noteq> lw) (bytes_of4 lw STATA_INT_NA @ fp) =
      Inr (STATA_INT_NA, fp)"
    by (simp add: read_int_written)
  show "InFloatBinary lr True (lr \<noteq> lw) (bytes_of4 lw 0x7F000000 @ fp) = Inr (0x7F000000, fp)"
    by (simp add: read_float_sentinel)
  show "InDoubleBinary lr True (lr \<noteq> lw) (bytes_of8 lw STATA_DOUBLE_NA @ fp) =
      Inr (STATA_DOUBLE_NA, fp)"
    by (simp add: read_double_written)
  show "OutIntegerBinary l NA_INTEGER False out = Inr ((), out @ bytes_of4 l STATA_INT_NA)"
    by (simp add: OutIntegerBinary_eq)
  show "OutDoubleBinary l NA_REAL naok out = Inr ((), out @ bytes_of8 l STATA_DOUBLE_NA)"
    by (simp add: OutDoubleBinary_eq R_FINITE_def NA_REAL_def)
qed

section \<open>Type tags of string columns\<close>

text \<open>
  Claim C10.  When the descriptors are read, every type byte from 0x7F up is taken for a
  string column, with no bound on it: the loop goes on to the next variable with a
  character vector allocated, and the data loop reads \<open>tag - 0x7F\<close> bytes for each cell of
  that column (0 bytes for the tag 0x7F, 128 for 0xFF).  A type byte below 0x7F that is not
  one of the five numeric tags raises "Unknown data type", and no other byte does.
\<close>

theorem string_type_tags:
  "(STATA_STRINGOFFSET \<le> abyte \<and> 0 \<le> sint nobs \<longrightarrow>
      read_types nobs (Suc n) (abyte # fp) =
        io_bind (read_types nobs n) (\<lambda>(types, df).
          io_return (abyte # types, STRSXP (replicate (unat nobs) []) # df)) fp) \<and>
   (STATA_STRINGOFFSET \<le> abyte \<longrightarrow>
      read_cell l se sw abyte i col =
        io_bind (InStringBinary (unat abyte - 0x7F)) (\<lambda>bs.
          io_return (set_STRING_ELT col i (bs @ [0])))) \<and>
   (abyte < STATA_STRINGOFFSET \<and>
    abyte \<notin> {STATA_FLOAT, STATA_DOUBLE, STATA_INT, STATA_SHORTINT, STATA_BYTE} \<longrightarrow>
      read_types nobs (Suc n) (abyte # fp) = Inl (UnknownDataType, fp)) \<and>
   (alloc_column abyte nobs fp = Inl (UnknownDataType, fp') \<longrightarrow>
      abyte < STATA_STRINGOFFSET \<and>
      abyte \<notin> {STATA_FLOAT, STATA_DOUBLE, STATA_INT, STATA_SHORTINT, STATA_BYTE})"
proof (intro conjI impI)
  assume "STATA_STRINGOFFSET \<le> abyte \<and> 0 \<le> sint nobs"
  then show "read_types nobs (Suc n) (abyte # fp) =
      io_bind (read_types nobs n) (\<lambda>(types, df).
        io_return (abyte # types, STRSXP (replicate (unat nobs) []) # df)) fp"
    by (simp add: read_types_Cons alloc_column_string del: read_types.simps)
next
  assume "STATA_STRINGOFFSET \<le> abyte"
  then have "abyte \<noteq> STATA_FLOAT" "abyte \<noteq> STATA_DOUBLE" "abyte \<noteq> STATA_INT"
    "abyte \<noteq> STATA_SHORTINT" "abyte \<noteq> STATA_BYTE"
    by (auto simp add: STATA_STRINGOFFSET_def STATA_FLOAT_def STATA_DOUBLE_def STATA_INT_def
        STATA_SHORTINT_def STATA_BYTE_def)
  then show "read_cell l se sw abyte i col =
      io_bind (InStringBinary (unat abyte - 0x7F)) (\<lambda>bs.
        io_return (set_STRING_ELT col i (bs @ [0])))"
    by (simp add: read_cell_def STATA_STRINGOFFSET_def)
next
  assume "abyte < STATA_STRINGOFFSET \<and>
    abyte \<notin> {STATA_FLOAT, STATA_DOUBLE, STATA_INT, STATA_SHORTINT, STATA_BYTE}"
  then show "read_types nobs (Suc n) (abyte # fp) = Inl (UnknownDataType, fp)"
    by (simp add: read_types_Cons alloc_column_unknown io_error_apply del: read_types.simps)
next
  assume a: "alloc_column abyte nobs fp = Inl (UnknownDataType, fp')"
  from alloc_column_unknown_only [OF a]
  show "abyte < STATA_STRINGOFFSET"
    and "abyte \<notin> {STATA_FLOAT, STATA_DOUBLE, STATA_INT, STATA_SHORTINT, STATA_BYTE}"
    by blast+
qed

theorem string_type_tags_witness:
  "read_types 2 (Suc 0) [0x7F] = Inr (([0x7F], [STRSXP [[], []]]), []) \<and>
   read_types 2 (Suc 0) [0xFF] = Inr (([0xFF], [STRSXP [[], []]]), []) \<and>
   read_cell LittleEndian HILO False 0xFF 0 (STRSXP [[], []]) (replicate 128 0x41) =
     Inr (STRSXP [replicate 128 0x41 @ [0], []], []) \<and>
   read_cell LittleEndian HILO False 0x7F 0 (STRSXP [[], []]) [0x41] = Inl (ReadError, [0x41]) \<and>
   read_types 2 (Suc 0) [0x7E] = Inl (UnknownDataType, []) \<and>
   read_types 2 (Suc 0) [0x00] = Inl (UnknownDataType, []) \<and>
   alloc_column 0x6D 2 [] = Inl (UnknownDataType, []) \<and>
   (0x6D :: byte) < STATA_STRINGOFFSET \<and>
   (0x6D :: byte) \<notin> {STATA_FLOAT, STATA_DOUBLE, STATA_INT, STATA_SHORTINT, STATA_BYTE}"
proof -
  have "unat (2 :: 32 word) = Suc (Suc 0)"
    by simp
  then have two: "replicate (unat (2 :: 32 word)) ([] :: byte list) = [[], []]"
    by (simp only: replicate.simps)
  have ge7F: "STATA_STRINGOFFSET \<le> 0x7F" and geFF: "STATA_STRINGOFFSET \<le> 0xFF"
    and nobs: "(0::int) \<le> sint (2 :: 32 word)"
    by (simp_all add: STATA_STRINGOFFSET_def)
  have lt: "(0x7E :: byte) < STATA_STRINGOFFSET \<and>
      (0x7E :: byte) \<notin> {STATA_FLOAT, STATA_DOUBLE, STATA_INT, STATA_SHORTINT, STATA_BYTE}"
    "(0x00 :: byte) < STATA_STRINGOFFSET \<and>
      (0x00 :: byte) \<notin> {STATA_FLOAT, STATA_DOUBLE, STATA_INT, STATA_SHORTINT, STATA_BYTE}"
    by (simp_all add: STATA_STRINGOFFSET_def STATA_FLOAT_def STATA_DOUBLE_def STATA_INT_def
        STATA_SHORTINT_def STATA_BYTE_def)
  note T7F = string_type_tags [of "0x7F" 2 0 "[]" LittleEndian HILO False 0 "STRSXP [[], []]" "[]"]
  note TFF = string_type_tags [of "0xFF" 2 0 "[]" LittleEndian HILO False 0 "STRSXP [[], []]" "[]"]
  note T7E = string_type_tags [of "0x7E" 2 0 "[]" LittleEndian HILO False 0 "STRSXP [[], []]" "[]"]
  note T00 = string_type_tags [of "0x00" 2 0 "[]" LittleEndian HILO False 0 "STRSXP [[], []]" "[]"]
  from T7F ge7F nobs have "read_types 2 (Suc 0) [0x7F] =
      io_bind (read_types 2 0) (\<lambda>(types, df).
        io_return (0x7F # types, STRSXP (replicate (unat (2 :: 32 word)) []) # df)) []"
    by blast
  then have 1: "read_types 2 (Suc 0) [0x7F] = Inr (([0x7F], [STRSXP [[], []]]), [])"
    by (simp only: two read_types.simps io_bind_return) (simp add: io_return_def)
  from TFF geFF nobs have "read_types 2 (Suc 0) [0xFF] =
      io_bind (read_types 2 0) (\<lambda>(types, df).
        io_return (0xFF # types, STRSXP (replicate (unat (2 :: 32 word)) []) # df)) []"
    by blast
  then have 2: "read_types 2 (Suc 0) [0xFF] = Inr (([0xFF], [STRSXP [[], []]]), [])"
    by (simp only: two read_types.simps io_bind_return) (simp add: io_return_def)
  from TFF geFF have "read_cell LittleEndian HILO False 0xFF 0 (STRSXP [[], []]) =
      io_bind (InStringBinary (unat (0xFF :: byte) - 0x7F)) (\<lambda>bs.
        io_return (set_STRING_ELT (STRSXP [[], []]) 0 (bs @ [0])))"
    by blast
  then have 3: "read_cell LittleEndian HILO False 0xFF 0 (STRSXP [[], []]) (replicate 128 0x41) =
      Inr (STRSXP [replicate 128 0x41 @ [0], []], [])"
    by (simp add: InStringBinary_def io_bind_def fread_def io_return_def)
  from T7F ge7F have "read_cell LittleEndian HILO False 0x7F 0 (STRSXP [[], []]) =
      io_bind (InStringBinary (unat (0x7F :: byte) - 0x7F)) (\<lambda>bs.
        io_return (set_STRING_ELT (STRSXP [[], []]) 0 (bs @ [0])))"
    by blast
  then have 4: "read_cell LittleEndian HILO False 0x7F 0 (STRSXP [[], []]) [0x41] =
      Inl (ReadError, [0x41])"
    by (simp add: InStringBinary_def io_bind_def fread_def io_return_def)
  from T7E lt(1) have 5: "read_types 2 (Suc 0) [0x7E] = Inl (UnknownDataType, [])"
    by blast
  from T00 lt(2) have 6: "read_types 2 (Suc 0) [0x00] = Inl (UnknownDataType, [])"
    by blast
  have 7: "alloc_column 0x6D 2 [] = Inl (UnknownDataType, [])"
    by (simp add: alloc_column_def io_error_def STATA_STRINGOFFSET_def STATA_FLOAT_def
        STATA_DOUBLE_def STATA_INT_def STATA_SHORTINT_def STATA_BYTE_def)
  note T6D = string_type_tags [of "0x6D" 2 0 "[]" LittleEndian HILO False 0 "STRSXP [[], []]" "[]"]
  from T6D 7 have 8: "(0x6D :: byte) < STATA_STRINGOFFSET \<and>
      (0x6D :: byte) \<notin> {STATA_FLOAT, STATA_DOUBLE, STATA_INT, STATA_SHORTINT, STATA_BYTE}"
    by blast
  from 1 2 3 4 5 6 7 8 show ?thesis by blast
qed

section \<open>The end of the characteristics\<close>

text \<open>
  Claim C5.  Let the header and the descriptors of a file be read without error, and let
  what follows be any sequence of well-formed characteristics (nonzero type, two length
  bytes, a payload of that length), the zero type byte, and two more bytes.  If the length
  that these two bytes announce is not zero, \<^verbatim>\<open>R_LoadStataData\<close> rejects the file with the
  error "Type 0 characteristic of nonzero length", however well formed the records before
  were.
\<close>

theorem final_characteristic_length_must_be_zero:
  assumes "read_header l fp = Inr (h, fp1)"
    and "0 \<in> set (h_datalabel h)" and "0 \<in> set (h_timestamp h)"
    and "read_descriptors h fp1 =
           Inr (d, concat (map characteristic_bytes recs) @ 0 # a # b # rest)"
    and "\<forall>r \<in> set recs. well_formed_characteristic (h_stata_endian h) r"
    and "announced_length (h_stata_endian h) a b \<noteq> 0"
  shows "R_LoadStataData l fp = Inl (StrangeCharacteristic, rest)"
proof -
  have "read_characteristics h (concat (map characteristic_bytes recs) @ 0 # a # b # rest) =
      Inl (StrangeCharacteristic, rest)"
    using assms(5,6) by (simp add: read_characteristics_records)
  with assms(1-4) show ?thesis
    by (simp add: R_LoadStataData_def io_bind_def mkChar_def io_return_def)
qed

theorem final_characteristic_length_must_be_zero_witness:
  "R_LoadStataData LittleEndian
     ([0x69, 2, 1, 0, 1, 0, 1, 0, 0, 0] @ replicate 32 0 @ replicate 18 0 @
      [0x62] @ [0x78, 0, 0, 0, 0, 0, 0, 0, 0] @ [0, 0, 0, 0] @ replicate 12 0 @
      replicate 9 0 @ replicate 32 0 @
      concat (map characteristic_bytes [(1, 2, 0, [0xAA, 0xBB]), (7, 0, 0, [])]) @
      0 # 1 # 0 # [5]) =
   Inl (StrangeCharacteristic, [5])"
proof -
  let ?h = "\<lparr>h_endian = HILO, h_version5 = True, h_stata_endian = 2, h_swapends = False,
             h_nvar = 1, h_nobs = 1, h_datalabel = replicate 32 0,
             h_timestamp = replicate 18 0\<rparr>"
  let ?d = "\<lparr>d_types = [0x62], d_columns = [INTSXP [0]], d_names = [[0x78]],
             d_formats = [[]], d_var_labels = [[]]\<rparr>"
  let ?recs = "[(1, 2, 0, [0xAA, 0xBB]), (7, 0, 0, [])] :: (byte \<times> byte \<times> byte \<times> byte list) list"
  let ?block = "concat (map characteristic_bytes ?recs) @ 0 # 1 # 0 # [5]"
  let ?fp1 = "[0x62] @ [0x78, 0, 0, 0, 0, 0, 0, 0, 0] @ [0, 0, 0, 0] @ replicate 12 0 @
      replicate 9 0 @ replicate 32 0 @ ?block"
  have 1: "read_header LittleEndian
      ([0x69, 2, 1, 0, 1, 0, 1, 0, 0, 0] @ replicate 32 0 @ replicate 18 0 @ ?fp1) =
      Inr (?h, ?fp1)"
    by code_simp
  have 2: "0 \<in> set (h_datalabel ?h)" and 3: "0 \<in> set (h_timestamp ?h)"
    by simp_all
  have 4: "read_descriptors ?h ?fp1 = Inr (?d, ?block)"
    by code_simp
  have 5: "\<forall>r \<in> set ?recs. well_formed_characteristic (h_stata_endian ?h) r"
    by code_simp
  have 6: "announced_length (h_stata_endian ?h) 1 0 \<noteq> 0"
    by code_simp
  show ?thesis
    using final_characteristic_length_must_be_zero [OF 1 2 3 4 5 6] by simp
qed

section \<open>Variable names\<close>

text \<open>
  Claim C7.  \<^verbatim>\<open>nameMangle\<close> replaces every \<^verbatim>\<open>'_'\<close> among the first \<open>len\<close> bytes by \<^verbatim>\<open>'.'\<close>
  and \<^verbatim>\<open>nameMangleOut\<close> every \<^verbatim>\<open>'.'\<close> by \<^verbatim>\<open>'_'\<close>, and they change nothing else.  The
  reader applies the first to all nine bytes of a stored name, so that the name it returns
  is the stored name with every \<^verbatim>\<open>'_'\<close> replaced; the writer applies the second to the
  eight bytes that \<^verbatim>\<open>strncpy\<close> takes from the name.  Writing and then reading a name is
  therefore lossy: the name \<^verbatim>\<open>a_.\<close>, which has both characters, is written as
  \<^verbatim>\<open>a__\<close> and read back as \<^verbatim>\<open>a..\<close>.
\<close>

theorem name_mangling:
  "nameMangle stataname len =
     map (\<lambda>c. if c = 0x5F then 0x2E else c) (take len stataname) @ drop len stataname \<and>
   nameMangleOut stataname len =
     map (\<lambda>c. if c = 0x2E then 0x5F else c) (take len stataname) @ drop len stataname \<and>
   (length aname = 9 \<and> 0 \<in> set aname \<longrightarrow>
      read_names (Suc n) (aname @ fp) =
        io_bind (read_names n) (\<lambda>names.
          io_return (map (\<lambda>c. if c = 0x5F then 0x2E else c)
                       (takeWhile (\<lambda>c. c \<noteq> 0) aname) # names)) fp) \<and>
   (i < length names \<longrightarrow>
      write_names mem names (Suc n) i out =
        write_names mem names n (Suc i)
          (out @ map (\<lambda>c. if c = 0x2E then 0x5F else c) (strncpy (names ! i) 8) @ [0])) \<and>
   (\<exists>name bs name'.
      0x5F \<in> set name \<and> 0x2E \<in> set name \<and>
      write_names mem [name] (Suc 0) 0 [] = Inr ((), bs) \<and>
      read_names (Suc 0) bs = Inr ([name'], []) \<and> name' \<noteq> name)"
proof (intro conjI impI)
  show "nameMangle stataname len =
      map (\<lambda>c. if c = 0x5F then 0x2E else c) (take len stataname) @ drop len stataname"
    by (rule nameMangle_map)
  show "nameMangleOut stataname len =
      map (\<lambda>c. if c = 0x2E then 0x5F else c) (take len stataname) @ drop len stataname"
    by (rule nameMangleOut_map)
next
  assume "length aname = 9 \<and> 0 \<in> set aname"
  then show "read_names (Suc n) (aname @ fp) =
      io_bind (read_names n) (\<lambda>names.
        io_return (map (\<lambda>c. if c = 0x5F then 0x2E else c)
                     (takeWhile (\<lambda>c. c \<noteq> 0) aname) # names)) fp"
    by (simp add: read_names_Suc del: read_names.simps)
next
  assume "i < length names"
  then show "write_names mem names (Suc n) i out =
      write_names mem names n (Suc i)
        (out @ map (\<lambda>c. if c = 0x2E then 0x5F else c) (strncpy (names ! i) 8) @ [0])"
    by (rule write_names_Suc)
next
  let ?name = "[0x61, 0x5F, 0x2E] :: byte list"
  let ?bs = "0x61 # 0x5F # 0x5F # replicate 5 0 @ [0] :: byte list"
  let ?name' = "[0x61, 0x2E, 0x2E] :: byte list"
  have "write_names mem [?name] (Suc 0) 0 [] =
      write_names mem [?name] 0 (Suc 0)
        ([] @ map (\<lambda>c. if c = 0x2E then 0x5F else c) (strncpy ([?name] ! 0) 8) @ [0])"
    by (rule write_names_Suc) simp
  then have "write_names mem [?name] (Suc 0) 0 [] = Inr ((), ?bs)"
    by (simp add: strncpy_def io_return_def del: write_names.simps(2))
  moreover have "read_names (Suc 0) ?bs = Inr ([?name'], [])"
    by code_simp
  moreover have "0x5F \<in> set ?name" "0x2E \<in> set ?name" "?name' \<noteq> ?name"
    by simp_all
  ultimately show "\<exists>name bs name'.
      0x5F \<in> set name \<and> 0x2E \<in> set name \<and>
      write_names mem [name] (Suc 0) 0 [] = Inr ((), bs) \<and>
      read_names (Suc 0) bs = Inr ([name'], []) \<and> name' \<noteq> name"
    by blast
qed

theorem name_mangling_witness:
  "read_names (Suc 0) [0x78, 0x5F, 0x79, 0x5F, 0, 0, 0, 0, 0] = Inr ([[0x78, 0x2E, 0x79, 0x2E]], []) \<and>
   write_names example_memory [[0x61, 0x2E, 0x62, 0x2E, 0x63, 0x2E, 0x64, 0x2E, 0x65, 0x2E]]
     (Suc 0) 0 [] =
     Inr ((), [0x61, 0x5F, 0x62, 0x5F, 0x63, 0x5F, 0x64, 0x5F, 0])"
proof -
  let ?aname = "[0x78, 0x5F, 0x79, 0x5F, 0, 0, 0, 0, 0] :: byte list"
  let ?names = "[[0x61, 0x2E, 0x62, 0x2E, 0x63, 0x2E, 0x64, 0x2E, 0x65, 0x2E]] :: byte list list"
  note T = name_mangling [where aname = ?aname and n = 0 and fp = "[]" and i = 0
      and names = ?names and out = "[]" and mem = example_memory]
  have "length ?aname = 9 \<and> 0 \<in> set ?aname" by simp
  with T have "read_names (Suc 0) (?aname @ []) =
      io_bind (read_names 0) (\<lambda>names.
        io_return (map (\<lambda>c. if c = 0x5F then 0x2E else c)
                     (takeWhile (\<lambda>c. c \<noteq> 0) ?aname) # names)) []"
    by blast
  then have 1: "read_names (Suc 0) ?aname = Inr ([[0x78, 0x2E, 0x79, 0x2E]], [])"
    by (simp add: io_return_def del: read_names.simps(2))
  have "0 < length ?names" by simp
  with T have "write_names example_memory ?names (Suc 0) 0 [] =
      write_names example_memory ?names 0 (Suc 0)
        ([] @ map (\<lambda>c. if c = 0x2E then 0x5F else c) (strncpy (?names ! 0) 8) @ [0])"
    by blast
  then have 2: "write_names example_memory ?names (Suc 0) 0 [] =
      Inr ((), [0x61, 0x5F, 0x62, 0x5F, 0x63, 0x5F, 0x64, 0x5F, 0])"
    by (simp add: strncpy_def io_return_def del: write_names.simps(2))
  from 1 2 show ?thesis by blast
qed

section \<open>The bytes of a file\<close>

text \<open>
  Each part of \<^verbatim>\<open>R_SaveStataData\<close>, on columns that are \<open>writable\<close>, as the bytes that it
  appends to the file.
\<close>

lemma write_type_eq:
  assumes "writable mem n col" and "n = 0 \<longrightarrow> k = 0"
  shows "\<exists>k'. (n = 0 \<longrightarrow> k' = 0) \<and>
     write_type mem n col k out = Inr ((width mem n col, k'), out @ [type_tag mem n col])"
proof (cases col)
  case (STRSXP cells)
  from scan_lengths_k [of mem cells n 0 k 0] obtain c
    where "scan_lengths mem cells n 0 k 0 =
      io_return (if n = 0 then k else length (elt (past_string mem) cells (0 + n - 1)), c)"
    by blast
  with assms(2) have "scan_lengths mem cells n 0 k 0 = io_return (string_width mem n cells, c)"
    by (auto simp add: string_width_def)
  with STRSXP show ?thesis
    by (simp add: write_type_def io_bind_OutByteBinary io_return_def string_width_def)
qed (use assms in \<open>simp_all add: write_type_def io_bind_OutByteBinary io_return_def\<close>)

lemma write_types_eq:
  "list_all (writable mem n) cols \<Longrightarrow> n = 0 \<longrightarrow> k = 0 \<Longrightarrow>
   write_types mem n cols k out =
     Inr (map (width mem n) cols, out @ map (type_tag mem n) cols)"
proof (induction cols arbitrary: k out)
  case Nil
  show ?case by (simp add: io_return_def)
next
  case (Cons col cols)
  from Cons.prems obtain k' where k': "n = 0 \<longrightarrow> k' = 0"
    and t: "write_type mem n col k out = Inr ((width mem n col, k'), out @ [type_tag mem n col])"
    using write_type_eq [of mem n col k out] by auto
  from Cons.prems have "list_all (writable mem n) cols"
    by simp
  from Cons.IH [OF this k', of "out @ [type_tag mem n col]"]
  show ?case
    by (simp add: io_bind_Inr [where m = "write_type mem n col k", OF t]
        io_bind_Inr [where m = "write_types mem n cols k'"] io_return_def)
qed

lemma write_names_length:
  "\<exists>s. length s = 9 * n \<and> write_names mem names n i out = Inr ((), out @ s)"
proof (induction n arbitrary: i out)
  case 0
  show ?case by (simp add: io_return_def)
next
  case (Suc n)
  let ?m = "nameMangleOut (strncpy (elt (past_string mem) names i) 8) 8"
  have len: "length ?m = 8"
    by (simp add: nameMangleOut_map)
  from Suc.IH [of "Suc i" "out @ ?m @ [0]"] obtain s where s: "length s = 9 * n"
    and "write_names mem names n (Suc i) (out @ ?m @ [0]) = Inr ((), (out @ ?m @ [0]) @ s)"
    by blast
  then have "write_names mem names (Suc n) i out = Inr ((), out @ (?m @ [0] @ s))"
    using len by (simp add: Let_def io_bind_OutStringBinary io_bind_OutByteBinary)
  moreover have "length (?m @ [0] @ s) = 9 * Suc n"
    using len s by simp
  ultimately show ?case
    by blast
qed

lemma write_zeros_eq: "write_zeros n out = Inr ((), out @ replicate n 0)"
proof (induction n arbitrary: out)
  case 0
  show ?case by (simp add: io_return_def)
next
  case (Suc n)
  then show ?case
    by (simp add: io_bind_OutByteBinary replicate_append_same)
qed

lemma length_digits: "0 < d \<Longrightarrow> k < 10 ^ d \<Longrightarrow> length (digits k) \<le> d"
proof (induction d arbitrary: k)
  case 0
  then show ?case by simp
next
  case (Suc d)
  show ?case
  proof (cases "k < 10")
    case True
    then show ?thesis
      by (subst digits.simps) simp
  next
    case False
    with Suc.prems have d: "0 < d"
      by (cases d) simp_all
    from Suc.prems have "k div 10 < 10 ^ d"
      by (simp add: less_mult_imp_div_less mult.commute)
    from Suc.IH [OF d this] False show ?thesis
      by (subst digits.simps) simp
  qed
qed

lemma write_formats_length:
  "length strformat = 12 \<Longrightarrow> list_all (writable mem n) cols \<Longrightarrow>
   \<exists>s. length s = 12 * length cols \<and>
       write_formats (zip cols (map (width mem n) cols)) strformat out = Inr ((), out @ s)"
proof (induction cols arbitrary: strformat out)
  case Nil
  show ?case by (simp add: io_return_def)
next
  case (Cons col cols)
  from Cons.prems have rest: "list_all (writable mem n) cols"
    by simp
  have fmt: "length format9g = 12"
    by (simp add: format9g_def)
  show ?case
  proof (cases col)
    case (STRSXP cells)
    let ?s = "[0x25] @ digits (string_width mem n cells) @ [0x73, 0]"
    let ?f = "?s @ drop (length ?s) strformat"
    from Cons.prems STRSXP have "string_width mem n cells < 10 ^ 9"
      by simp
    then have "length (digits (string_width mem n cells)) \<le> 9"
      by (intro length_digits) simp_all
    then have s: "length ?s \<le> 12"
      by simp
    with Cons.prems have f: "length ?f = 12"
      by simp
    from Cons.IH [OF f rest, of "out @ ?f"] obtain r where r: "length r = 12 * length cols"
      and "write_formats (zip cols (map (width mem n) cols)) ?f (out @ ?f) =
        Inr ((), (out @ ?f) @ r)"
      by blast
    then have "write_formats (zip (col # cols) (map (width mem n) (col # cols))) strformat out =
        Inr ((), out @ (?f @ r))"
      using s f STRSXP by (simp add: Let_def io_bind_OutStringBinary del: append.simps)
    moreover have "length (?f @ r) = 12 * length (col # cols)"
      using f r by (simp del: append.simps)
    ultimately show ?thesis
      by blast
  next
    case (LGLSXP xs)
    from Cons.IH [OF Cons.prems(1) rest, of "out @ format9g"] obtain r
      where r: "length r = 12 * length cols"
        and "write_formats (zip cols (map (width mem n) cols)) strformat (out @ format9g) =
          Inr ((), (out @ format9g) @ r)"
      by blast
    then have "write_formats (zip (col # cols) (map (width mem n) (col # cols))) strformat out =
        Inr ((), out @ (format9g @ r))"
      using fmt LGLSXP by (simp add: io_bind_OutStringBinary)
    moreover have "length (format9g @ r) = 12 * length (col # cols)"
      using fmt r by simp
    ultimately show ?thesis
      by blast
  next
    case (INTSXP xs)
    from Cons.IH [OF Cons.prems(1) rest, of "out @ format9g"] obtain r
      where r: "length r = 12 * length cols"
        and "write_formats (zip cols (map (width mem n) cols)) strformat (out @ format9g) =
          Inr ((), (out @ format9g) @ r)"
      by blast
    then have "write_formats (zip (col # cols) (map (width mem n) (col # cols))) strformat out =
        Inr ((), out @ (format9g @ r))"
      using fmt INTSXP by (simp add: io_bind_OutStringBinary)
    moreover have "length (format9g @ r) = 12 * length (col # cols)"
      using fmt r by simp
    ultimately show ?thesis
      by blast
  next
    case (REALSXP xs)
    from Cons.IH [OF Cons.prems(1) rest, of "out @ format9g"] obtain r
      where r: "length r = 12 * length cols"
        and "write_formats (zip cols (map (width mem n) cols)) strformat (out @ format9g) =
          Inr ((), (out @ format9g) @ r)"
      by blast
    then have "write_formats (zip (col # cols) (map (width mem n) (col # cols))) strformat out =
        Inr ((), out @ (format9g @ r))"
      using fmt REALSXP by (simp add: io_bind_OutStringBinary)
    moreover have "length (format9g @ r) = 12 * length (col # cols)"
      using fmt r by simp
    ultimately show ?thesis
      by blast
  next
    case (OTHERSXP m)
    with Cons.prems show ?thesis
      by simp
  qed
qed

lemma write_value_labels_eq:
  "write_value_labels n out = Inr ((), out @ replicate (9 * n) 0)"
proof (induction n arbitrary: out)
  case 0
  show ?case by (simp add: io_return_def)
next
  case (Suc n)
  have "replicate 9 (0 :: byte) @ replicate (9 * n) 0 = replicate (9 * Suc n) 0"
    by (simp add: replicate_add [symmetric])
  with Suc show ?case
    by (simp add: io_bind_OutStringBinary del: replicate_add)
qed

lemma write_var_labels_length:
  "\<exists>s. length s = 81 * n \<and> write_var_labels mem names n i out = Inr ((), out @ s)"
proof (induction n arbitrary: i out)
  case 0
  show ?case by (simp add: io_return_def)
next
  case (Suc n)
  let ?d = "(strncpy (elt (past_string mem) names i) 81)[80 := 0]"
  have len: "length ?d = 81"
    by simp
  from Suc.IH [of "Suc i" "out @ ?d"] obtain s where s: "length s = 81 * n"
    and "write_var_labels mem names n (Suc i) (out @ ?d) = Inr ((), (out @ ?d) @ s)"
    by blast
  then have "write_var_labels mem names (Suc n) i out = Inr ((), out @ (?d @ s))"
    using len by (simp add: Let_def io_bind_OutStringBinary)
  moreover have "length (?d @ s) = 81 * Suc n"
    using len s by simp
  ultimately show ?case
    by blast
qed

lemma write_cell_eq:
  assumes "i < n" and "writable mem n col"
  shows "write_cell l mem i col (width mem n col) out = Inr ((), out @ cell_bytes l mem n i col)"
proof (cases col)
  case (STRSXP cells)
  let ?cell = "elt (past_string mem) cells i"
  from assms STRSXP have "?cell \<noteq> []"
    by (simp add: list_all_iff)
  then have cell: "io_bind (OutStringBinary ?cell (length ?cell)) f out = f () (out @ ?cell)"
    for f :: "unit \<Rightarrow> unit io"
    by (intro io_bind_OutStringBinary) simp_all
  from STRSXP show ?thesis
    by (simp add: write_cell_def Let_def cell write_zeros_eq)
qed (use assms in \<open>simp_all add: write_cell_def OutIntegerBinary_eq OutDoubleBinary_eq Let_def\<close>)

lemma write_row_eq:
  "i < n \<Longrightarrow> list_all (writable mem n) cols \<Longrightarrow>
   write_row l mem i (zip cols (map (width mem n) cols)) out =
     Inr ((), out @ concat (map (cell_bytes l mem n i) cols))"
proof (induction cols arbitrary: out)
  case Nil
  show ?case by (simp add: io_return_def)
next
  case (Cons col cols)
  then have c: "write_cell l mem i col (width mem n col) out =
      Inr ((), out @ cell_bytes l mem n i col)"
    by (intro write_cell_eq) simp_all
  from Cons show ?case
    by (simp add: io_bind_Inr [where m = "write_cell l mem i col (width mem n col)", OF c])
qed

lemma write_rows_eq:
  "i + m \<le> n \<Longrightarrow> list_all (writable mem n) cols \<Longrightarrow>
   write_rows l mem (zip cols (map (width mem n) cols)) m i out =
     Inr ((), out @ concat (map (\<lambda>i. concat (map (cell_bytes l mem n i) cols)) [i..<i + m]))"
proof (induction m arbitrary: i out)
  case 0
  show ?case by (simp add: io_return_def)
next
  case (Suc m)
  let ?cts = "zip cols (map (width mem n) cols)"
  let ?row = "concat (map (cell_bytes l mem n i) cols)"
  from Suc.prems have r: "write_row l mem i ?cts out = Inr ((), out @ ?row)"
    by (intro write_row_eq) simp_all
  from Suc.prems have "Suc i + m \<le> n"
    by simp
  from Suc.IH [OF this Suc.prems(2), of "out @ ?row"]
  have "write_rows l mem ?cts m (Suc i) (out @ ?row) =
      Inr ((), (out @ ?row) @
        concat (map (\<lambda>i. concat (map (cell_bytes l mem n i) cols)) [Suc i..<Suc i + m]))" .
  moreover have "[i..<i + Suc m] = i # [Suc i..<Suc i + m]"
    by (simp add: upt_conv_Cons)
  ultimately show ?case
    by (simp add: io_bind_Inr [where m = "write_row l mem i ?cts", OF r] del: upt_Suc)
qed

text \<open>
  The whole file: the header, the type bytes, the other descriptors (113 bytes for each
  variable and 5 more), and the data block, which holds the cells 0 to \<open>n - 1\<close> of every
  column, row by row, where \<open>n\<close> is the count that the header holds.
\<close>

lemma R_SaveStataData_bytes:
  assumes w: "list_all (writable mem n) (df_columns df)"
    and h: "write_header l mem df out = Inr ((endian, length (df_columns df), n), fp1)"
  shows "\<exists>desc. length desc = 113 * length (df_columns df) + 5 \<and>
     R_SaveStataData l mem df out =
       Inr ((), fp1 @ map (type_tag mem n) (df_columns df) @ desc @
                concat (map (\<lambda>i. concat (map (cell_bytes l mem n i) (df_columns df))) [0..<n]))"
proof -
  define cs where "cs = df_columns df"
  define nvar where "nvar = length cs"
  define types where "types = map (width mem n) cs"
  define names where "names = df_names df"
  define data where "data = concat (map (\<lambda>i. concat (map (cell_bytes l mem n i) cs)) [0..<n])"
  note w' = w [folded cs_def]
  define fp2 where "fp2 = fp1 @ map (type_tag mem n) cs"
  have t: "write_types mem n cs 0 fp1 = Inr (types, fp2)"
    unfolding types_def fp2_def by (rule write_types_eq [OF w']) simp
  obtain s3 where s3: "length s3 = 9 * nvar"
    and "write_names mem names nvar 0 fp2 = Inr ((), fp2 @ s3)"
    using write_names_length by blast
  define fp3 where "fp3 = fp2 @ s3"
  have nm: "write_names mem names nvar 0 fp2 = Inr ((), fp3)"
    unfolding fp3_def by fact
  define fp4 where "fp4 = fp3 @ replicate (2 * (nvar + 1)) 0"
  have z: "write_zeros (2 * (nvar + 1)) fp3 = Inr ((), fp4)"
    unfolding fp4_def by (rule write_zeros_eq)
  have "length (replicate 12 (0 :: byte)) = 12"
    by simp
  from write_formats_length [OF this w', of fp4] obtain s5 where s5: "length s5 = 12 * nvar"
    and "write_formats (zip cs types) (replicate 12 0) fp4 = Inr ((), fp4 @ s5)"
    unfolding types_def nvar_def by blast
  define fp5 where "fp5 = fp4 @ s5"
  have f: "write_formats (zip cs types) (replicate 12 0) fp4 = Inr ((), fp5)"
    unfolding fp5_def by fact
  define fp6 where "fp6 = fp5 @ replicate (9 * nvar) 0"
  have v: "write_value_labels nvar fp5 = Inr ((), fp6)"
    unfolding fp6_def by (rule write_value_labels_eq)
  obtain s7 where s7: "length s7 = 81 * nvar"
    and "write_var_labels mem names nvar 0 fp6 = Inr ((), fp6 @ s7)"
    using write_var_labels_length by blast
  define fp7 where "fp7 = fp6 @ s7"
  have vl: "write_var_labels mem names nvar 0 fp6 = Inr ((), fp7)"
    unfolding fp7_def by fact
  have rows: "write_rows l mem (zip cs types) n 0 (((fp7 @ [0]) @ [0]) @ [0]) =
      Inr ((), (((fp7 @ [0]) @ [0]) @ [0]) @ data)"
    unfolding types_def data_def
    using write_rows_eq [of 0 n n mem cs l "((fp7 @ [0]) @ [0]) @ [0]"] w' by simp
  define desc where
    "desc = s3 @ replicate (2 * (nvar + 1)) 0 @ s5 @ replicate (9 * nvar) 0 @ s7 @ [0, 0, 0]"
  have len: "length desc = 113 * nvar + 5"
    using s3 s5 s7 by (simp add: desc_def)
  have "R_SaveStataData l mem df out =
      io_bind (write_types mem n cs 0) (\<lambda>types.
      io_bind (write_names mem names nvar 0) (\<lambda>_.
      io_bind (write_zeros (2 * (nvar + 1))) (\<lambda>_.
      io_bind (write_formats (zip cs types) (replicate 12 0)) (\<lambda>_.
      io_bind (write_value_labels nvar) (\<lambda>_.
      io_bind (write_var_labels mem names nvar 0) (\<lambda>_.
      io_bind (OutByteBinary 0) (\<lambda>_.
      io_bind (OutByteBinary 0) (\<lambda>_.
      io_bind (OutByteBinary 0) (\<lambda>_.
      write_rows l mem (zip cs types) n 0))))))))) fp1"
    unfolding R_SaveStataData_def cs_def nvar_def names_def
    by (simp only: io_bind_Inr [where m = "write_header l mem df", OF h] prod.case)
  also have "\<dots> = Inr ((), (((fp7 @ [0]) @ [0]) @ [0]) @ data)"
    by (simp only: io_bind_Inr [where m = "write_types mem n cs 0", OF t]
      io_bind_Inr [where m = "write_names mem names nvar 0", OF nm]
      io_bind_Inr [where m = "write_zeros (2 * (nvar + 1))", OF z]
      io_bind_Inr [where m = "write_formats (zip cs types) (replicate 12 0)", OF f]
      io_bind_Inr [where m = "write_value_labels nvar", OF v]
      io_bind_Inr [where m = "write_var_labels mem names nvar 0", OF vl]
      io_bind_OutByteBinary rows)
  also have "(((fp7 @ [0]) @ [0]) @ [0]) @ data = fp1 @ map (type_tag mem n) cs @ desc @ data"
    by (simp add: fp7_def fp6_def fp5_def fp4_def fp3_def fp2_def desc_def)
  finally show ?thesis
    using len unfolding cs_def [symmetric] data_def nvar_def
    by blast
qed

section \<open>The observation count\<close>

text \<open>
  Claim C9.  For a data frame with at least one column, \<^verbatim>\<open>R_SaveStataData\<close> writes the
  length of the first column as the observation count: the header is six bytes followed
  by that length as a 4-byte int, and bytes 6 to 9 of the file hold it however the writing
  ends.  The lengths of the other columns are never compared with it: whether the columns
  can be written (\<open>writable\<close>) is a matter of their types and of the strings found at the
  indexes below that length, and when they can, the function returns and the file is the
  header, one type byte for each column, 113 bytes of other descriptors for each column and
  5 more, and the data block.  The data block holds,
  for each \<open>i\<close> from 0 to that length - 1 in turn, cell \<open>i\<close> of every column: the loop over
  the cells of each column runs for the length of the first column.  So does the loop over
  the strings of a string column, whose type byte comes from the string at index length - 1.
  In a column shorter than the first, the cells past its end are what the memory holds
  there; the cells of a longer column from that length on are not looked at, and the file
  is the one written for the data frame whose columns are cut to the length of the first.
\<close>

theorem observation_count_is_first_column_length:
  assumes "df_columns df = col0 # cols"
  shows "(\<exists>endian hdr. length hdr = 6 \<and>
            write_header l mem df out =
              Inr ((endian, Suc (length cols), length_col col0),
                   out @ hdr @ bytes_of4 l (of_nat (length_col col0)) @
                   written_by_R @ replicate 18 0)) \<and>
         take 4 (drop 6 (written (R_SaveStataData l mem df []))) =
           bytes_of4 l (of_nat (length_col col0)) \<and>
         (list_all (writable mem (length_col col0)) (col0 # cols) \<longrightarrow>
            (\<exists>hdr desc. length hdr = 6 \<and> length desc = 113 * length (col0 # cols) + 5 \<and>
               R_SaveStataData l mem df out =
                 Inr ((), out @ hdr @ bytes_of4 l (of_nat (length_col col0)) @
                          written_by_R @ replicate 18 0 @
                          map (type_tag mem (length_col col0)) (col0 # cols) @ desc @
                          concat (map (\<lambda>i. concat (map (cell_bytes l mem (length_col col0) i)
                                                     (col0 # cols)))
                                    [0..<length_col col0])))) \<and>
         R_SaveStataData l mem
             (df\<lparr>df_columns := map (take_col (length_col col0)) (col0 # cols)\<rparr>) out =
           R_SaveStataData l mem df out"
proof -
  let ?n = "length_col col0"
  have header: "\<exists>endian hdr. length hdr = 6 \<and>
      write_header l mem df out' =
        Inr ((endian, Suc (length cols), ?n),
             out' @ hdr @ bytes_of4 l (of_nat ?n) @ written_by_R @ replicate 18 0)"
    for out'
    unfolding write_header_eq [OF assms]
    by (intro exI [where x = "case l of BigEndian \<Rightarrow> LOHI | LittleEndian \<Rightarrow> HILO"]
        exI [where x = "[108, ucast (case l of BigEndian \<Rightarrow> LOHI | LittleEndian \<Rightarrow> HILO), 1, 0] @
          (if l = BigEndian
           then [ucast (signed_drop_bit 8 (of_nat (Suc (length cols)) :: 32 word)),
                 ucast ((of_nat (Suc (length cols)) :: 32 word) AND 0xff)]
           else [ucast ((of_nat (Suc (length cols)) :: 32 word) AND 0xff),
                 ucast (signed_drop_bit 8 (of_nat (Suc (length cols)) :: 32 word))])"])
      simp
  have count: "take 4 (drop 6 (written (R_SaveStataData l mem df []))) = bytes_of4 l (of_nat ?n)"
  proof -
    from header [of "[]"] obtain endian hdr where hdr: "length hdr = 6"
      and h: "write_header l mem df [] =
          Inr ((endian, Suc (length cols), ?n),
               [] @ hdr @ bytes_of4 l (of_nat ?n) @ written_by_R @ replicate 18 0)"
      by blast
    from R_SaveStataData_header [OF h] obtain s
      where "written (R_SaveStataData l mem df []) =
        hdr @ bytes_of4 l (of_nat ?n) @ written_by_R @ replicate 18 0 @ s"
      by auto
    with hdr show ?thesis by simp
  qed
  have bytes: "\<exists>hdr desc. length hdr = 6 \<and> length desc = 113 * length (col0 # cols) + 5 \<and>
      R_SaveStataData l mem df out =
        Inr ((), out @ hdr @ bytes_of4 l (of_nat ?n) @ written_by_R @ replicate 18 0 @
                 map (type_tag mem ?n) (col0 # cols) @ desc @
                 concat (map (\<lambda>i. concat (map (cell_bytes l mem ?n i) (col0 # cols))) [0..<?n]))"
    if w: "list_all (writable mem ?n) (col0 # cols)"
  proof -
    from header [of out] obtain endian hdr where hdr: "length hdr = 6"
      and h: "write_header l mem df out =
          Inr ((endian, Suc (length cols), ?n),
               out @ hdr @ bytes_of4 l (of_nat ?n) @ written_by_R @ replicate 18 0)"
      by blast
    from w have w': "list_all (writable mem ?n) (df_columns df)"
      by (simp only: assms)
    from h have h': "write_header l mem df out =
        Inr ((endian, length (df_columns df), ?n),
             out @ hdr @ bytes_of4 l (of_nat ?n) @ written_by_R @ replicate 18 0)"
      using assms by simp
    from R_SaveStataData_bytes [OF w' h'] obtain desc
      where "length desc = 113 * length (df_columns df) + 5"
        and "R_SaveStataData l mem df out =
          Inr ((), (out @ hdr @ bytes_of4 l (of_nat ?n) @ written_by_R @ replicate 18 0) @
                   map (type_tag mem ?n) (df_columns df) @ desc @
                   concat (map (\<lambda>i. concat (map (cell_bytes l mem ?n i) (df_columns df))) [0..<?n]))"
      by blast
    then have "length desc = 113 * length (col0 # cols) + 5 \<and>
        R_SaveStataData l mem df out =
          Inr ((), out @ hdr @ bytes_of4 l (of_nat ?n) @ written_by_R @ replicate 18 0 @
                   map (type_tag mem ?n) (col0 # cols) @ desc @
                   concat (map (\<lambda>i. concat (map (cell_bytes l mem ?n i) (col0 # cols))) [0..<?n]))"
      using assms by simp
    with hdr show ?thesis
      by blast
  qed
  have "R_SaveStataData l mem (df\<lparr>df_columns := map (take_col ?n) (col0 # cols)\<rparr>) out =
      R_SaveStataData l mem df out"
    using assms by (rule R_SaveStataData_take)
  with header [of out] count bytes show ?thesis
    by blast
qed

theorem observation_count_is_first_column_length_witness:
  "list_all (writable example_memory 2)
     [INTSXP [1, 2], REALSXP [0x3FF0000000000000, 0x4000000000000000, 0x4008000000000000],
      INTSXP [3], STRSXP [[0x61], [0x62, 0x63]]] \<and>
   take 4 (drop 6 (written (R_SaveStataData LittleEndian example_memory
     \<lparr>df_columns =
        [INTSXP [1, 2], REALSXP [0x3FF0000000000000, 0x4000000000000000, 0x4008000000000000],
         INTSXP [3], STRSXP [[0x61], [0x62, 0x63]]],
      df_names = [[0x61], [0x62], [0x63], [0x64]], df_datalabel = [], df_time_stamp = [],
      df_formats = [], df_var_labels = [], df_row_names = []\<rparr> []))) = [2, 0, 0, 0] \<and>
   (\<exists>hdr desc. length hdr = 6 \<and> length desc = 457 \<and>
      R_SaveStataData LittleEndian example_memory
        \<lparr>df_columns =
           [INTSXP [1, 2], REALSXP [0x3FF0000000000000, 0x4000000000000000, 0x4008000000000000],
            INTSXP [3], STRSXP [[0x61], [0x62, 0x63]]],
         df_names = [[0x61], [0x62], [0x63], [0x64]], df_datalabel = [], df_time_stamp = [],
         df_formats = [], df_var_labels = [], df_row_names = []\<rparr> [] =
      Inr ((), hdr @ [2, 0, 0, 0] @ written_by_R @ replicate 18 0 @
               [0x6C, 0x64, 0x6C, 0x81] @ desc @
               [1, 0, 0, 0] @ [0, 0, 0, 0, 0, 0, 0xF0, 0x3F] @ [3, 0, 0, 0] @ [0x61, 0] @
               [2, 0, 0, 0] @ [0, 0, 0, 0, 0, 0, 0, 0x40] @ [42, 0, 0, 0] @ [0x62, 0x63])) \<and>
   R_SaveStataData LittleEndian example_memory
     \<lparr>df_columns =
        [INTSXP [1, 2], REALSXP [0x3FF0000000000000, 0x4000000000000000],
         INTSXP [3], STRSXP [[0x61], [0x62, 0x63]]],
      df_names = [[0x61], [0x62], [0x63], [0x64]], df_datalabel = [], df_time_stamp = [],
      df_formats = [], df_var_labels = [], df_row_names = []\<rparr> [] =
   R_SaveStataData LittleEndian example_memory
     \<lparr>df_columns =
        [INTSXP [1, 2], REALSXP [0x3FF0000000000000, 0x4000000000000000, 0x4008000000000000],
         INTSXP [3], STRSXP [[0x61], [0x62, 0x63]]],
      df_names = [[0x61], [0x62], [0x63], [0x64]], df_datalabel = [], df_time_stamp = [],
      df_formats = [], df_var_labels = [], df_row_names = []\<rparr> []"
proof -
  let ?col0 = "INTSXP [1, 2]"
  let ?cols = "[REALSXP [0x3FF0000000000000, 0x4000000000000000, 0x4008000000000000],
      INTSXP [3], STRSXP [[0x61], [0x62, 0x63]]]"
  let ?df = "\<lparr>df_columns = ?col0 # ?cols,
      df_names = [[0x61], [0x62], [0x63], [0x64]], df_datalabel = [], df_time_stamp = [],
      df_formats = [], df_var_labels = [], df_row_names = []\<rparr>"
  have n: "length_col ?col0 = Suc (Suc 0)"
    by simp
  have cols: "df_columns ?df = ?col0 # ?cols"
    by simp
  note T = observation_count_is_first_column_length [OF cols, of LittleEndian example_memory "[]"]
  have w: "list_all (writable example_memory (Suc (Suc 0))) (?col0 # ?cols)"
    by (simp add: example_memory_def elt_def string_width_def)
  have two: "bytes_of4 LittleEndian (of_nat (Suc (Suc 0))) = [2, 0, 0, 0]"
    by (simp add: bytes_of4_def be_bytes4_def)
  have ints: "bytes_of4 LittleEndian 1 = [1, 0, 0, 0]" "bytes_of4 LittleEndian 2 = [2, 0, 0, 0]"
    "bytes_of4 LittleEndian 3 = [3, 0, 0, 0]" "bytes_of4 LittleEndian 42 = [42, 0, 0, 0]"
    by (simp_all add: bytes_of4_def be_bytes4_def)
  have doubles: "bytes_of8 LittleEndian 0x3FF0000000000000 = [0, 0, 0, 0, 0, 0, 0xF0, 0x3F]"
    "bytes_of8 LittleEndian 0x4000000000000000 = [0, 0, 0, 0, 0, 0, 0, 0x40]"
    by (simp_all add: bytes_of8_def be_bytes8_def)
  from T have "take 4 (drop 6 (written (R_SaveStataData LittleEndian example_memory ?df []))) =
      bytes_of4 LittleEndian (of_nat (length_col ?col0))"
    by blast
  then have 1: "take 4 (drop 6 (written (R_SaveStataData LittleEndian example_memory ?df []))) =
      [2, 0, 0, 0]"
    by (simp only: n two)
  from T w have "\<exists>hdr desc. length hdr = 6 \<and> length desc = 113 * length (?col0 # ?cols) + 5 \<and>
      R_SaveStataData LittleEndian example_memory ?df [] =
        Inr ((), [] @ hdr @ bytes_of4 LittleEndian (of_nat (length_col ?col0)) @
                 written_by_R @ replicate 18 0 @
                 map (type_tag example_memory (length_col ?col0)) (?col0 # ?cols) @ desc @
                 concat (map (\<lambda>i. concat (map (cell_bytes LittleEndian example_memory
                                                  (length_col ?col0) i) (?col0 # ?cols)))
                           [0..<length_col ?col0]))"
    unfolding n by blast
  then have 2: "\<exists>hdr desc. length hdr = 6 \<and> length desc = 457 \<and>
      R_SaveStataData LittleEndian example_memory ?df [] =
      Inr ((), hdr @ [2, 0, 0, 0] @ written_by_R @ replicate 18 0 @
               [0x6C, 0x64, 0x6C, 0x81] @ desc @
               [1, 0, 0, 0] @ [0, 0, 0, 0, 0, 0, 0xF0, 0x3F] @ [3, 0, 0, 0] @ [0x61, 0] @
               [2, 0, 0, 0] @ [0, 0, 0, 0, 0, 0, 0, 0x40] @ [42, 0, 0, 0] @ [0x62, 0x63])"
    unfolding n two
    by (simp add: example_memory_def elt_def string_width_def STATA_INT_def STATA_DOUBLE_def
        STATA_STRINGOFFSET_def NA_INTEGER_def R_FINITE_def ints doubles)
  from T have "R_SaveStataData LittleEndian example_memory
      (?df\<lparr>df_columns := map (take_col (length_col ?col0)) (?col0 # ?cols)\<rparr>) [] =
      R_SaveStataData LittleEndian example_memory ?df []"
    by blast
  then have 3: "R_SaveStataData LittleEndian example_memory
     \<lparr>df_columns =
        [INTSXP [1, 2], REALSXP [0x3FF0000000000000, 0x4000000000000000],
         INTSXP [3], STRSXP [[0x61], [0x62, 0x63]]],
      df_names = [[0x61], [0x62], [0x63], [0x64]], df_datalabel = [], df_time_stamp = [],
      df_formats = [], df_var_labels = [], df_row_names = []\<rparr> [] =
      R_SaveStataData LittleEndian example_memory ?df []"
    unfolding n by simp
  have w2: "list_all (writable example_memory 2) (?col0 # ?cols)"
    using w by (simp only: numeral_2_eq_2)
  from w2 1 2 3 show ?thesis
    by simp
qed

section \<open>The declared width of a string column\<close>

text \<open>
  Claim C1 says that the type byte of a string column is 0x7F plus the greatest length of
  its cells.  The loop of lines 550-554 does compute that maximum, in \<^verbatim>\<open>charlen\<close>, but
  line 555 writes \<^verbatim>\<open>k+STATA_STRINGOFFSET\<close> and line 556 stores \<^verbatim>\<open>k\<close>, and \<^verbatim>\<open>k\<close> is the
  length of the cell seen last.  So for a column with at least one cell the type byte is
  0x7F plus the length of its last cell.  For the cells \<^verbatim>\<open>cde\<close>, \<^verbatim>\<open>ab\<close> the byte is
  0x7F + 2 although the longest cell has 3 bytes; the data block then holds the five bytes
  \<^verbatim>\<open>cdeab\<close>, which \<^verbatim>\<open>R_LoadStataData\<close> reads as the cells \<^verbatim>\<open>cd\<close> and \<^verbatim>\<open>ea\<close>, one byte
  being left over.
\<close>

theorem string_tag_is_last_cell_length:
  assumes "cells \<noteq> []"
  shows "write_type mem (length cells) (STRSXP cells) k out =
           Inr ((length (last cells), length (last cells)),
                out @ [of_nat (length (last cells) + unat STATA_STRINGOFFSET)])"
proof -
  from scan_lengths_last [of 0 "length cells" cells mem k 0] assms obtain c
    where "scan_lengths mem cells (length cells) 0 k 0 = io_return (length (last cells), c)"
    by (auto simp add: last_conv_nth)
  then show ?thesis
    by (simp add: write_type_def io_bind_OutByteBinary io_return_def)
qed

theorem string_tag_is_last_cell_length_witness:
  "write_type example_memory (length [[0x63, 0x64, 0x65], [0x61, 0x62 :: byte]])
     (STRSXP [[0x63, 0x64, 0x65], [0x61, 0x62]]) 0 [] =
     Inr ((length [0x61, 0x62 :: byte], length [0x61, 0x62 :: byte]), [0x7F + 2]) \<and>
   Max (length ` set [[0x63, 0x64, 0x65], [0x61, 0x62 :: byte]]) = 3 \<and>
   (\<exists>file.
      R_SaveStataData LittleEndian example_memory
        \<lparr>df_columns = [STRSXP [[0x63, 0x64, 0x65], [0x61, 0x62]]], df_names = [[0x78]],
         df_datalabel = [], df_time_stamp = [], df_formats = [], df_var_labels = [],
         df_row_names = []\<rparr> [] = Inr ((), file) \<and>
      file ! 109 = 0x7F + 2 \<and>
      drop 228 file = [0x63, 0x64, 0x65, 0x61, 0x62] \<and>
      (\<exists>df. R_LoadStataData LittleEndian file = Inr (df, [0x62]) \<and>
            df_columns df = [STRSXP [[0x63, 0x64, 0], [0x65, 0x61, 0]]]))"
proof -
  let ?cells = "[[0x63, 0x64, 0x65], [0x61, 0x62]] :: byte list list"
  let ?df = "\<lparr>df_columns = [STRSXP ?cells], df_names = [[0x78]],
         df_datalabel = [], df_time_stamp = [], df_formats = [], df_var_labels = [],
         df_row_names = []\<rparr>"
  let ?file = "snd (projr (R_SaveStataData LittleEndian example_memory ?df []))"
  let ?df' = "fst (projr (R_LoadStataData LittleEndian ?file))"
  have "?cells \<noteq> []" by simp
  from string_tag_is_last_cell_length [OF this, of example_memory 0 "[]"]
  have 1: "write_type example_memory (length ?cells) (STRSXP ?cells) 0 [] =
      Inr ((length [0x61, 0x62 :: byte], length [0x61, 0x62 :: byte]), [0x7F + 2])"
    by (simp add: STATA_STRINGOFFSET_def)
  have 2: "Max (length ` set ?cells) = 3"
    by simp
  have 3: "R_SaveStataData LittleEndian example_memory ?df [] = Inr ((), ?file)"
    by code_simp
  have 4: "?file ! 109 = 0x7F + 2"
    by code_simp
  have 5: "drop 228 ?file = [0x63, 0x64, 0x65, 0x61, 0x62]"
    by code_simp
  have 6: "R_LoadStataData LittleEndian ?file = Inr (?df', [0x62])"
    by code_simp
  have 7: "df_columns ?df' = [STRSXP [[0x63, 0x64, 0], [0x65, 0x61, 0]]]"
    by code_simp
  from 1 2 3 4 5 6 7 show ?thesis by blast
qed

end
